theory Spec2Isabelle
  imports Complex_Main
begin

section \<open>The data model of \<^verbatim>\<open>analyze_comparison_results.py\<close>\<close>

text \<open>
  The script holds one pandas table. A cell of the table is a number, a text or the
  missing value (pandas' NaN). Numbers are rationals here: the script only compares
  them and averages them, and rounding of binary floating point is not represented.
  A Python \<^verbatim>\<open>str\<close> is a \<^typ>\<open>string\<close> whose characters are the code points below 256.
\<close>

datatype cell = Num rat | Str string | NaN

text \<open>
  A table has its column labels, in order, and its rows; a row gives the cell under
  each label. Labels outside \<open>columns\<close> are never read without a membership test or a
  \<^verbatim>\<open>KeyError\<close> first.
\<close>

type_synonym row = "string \<Rightarrow> cell"

record dataframe =
  columns :: "string list"
  rows :: "row list"

definition column :: "dataframe \<Rightarrow> string \<Rightarrow> cell list" where
  \<comment> \<open>\<^verbatim>\<open>df[c]\<close>, for a label that occurs once\<close>
  "column df c = map (\<lambda>r. r c) (rows df)"

definition unique :: "cell list \<Rightarrow> cell list" where
  \<comment> \<open>\<^verbatim>\<open>Series.unique()\<close>: the distinct values in order of first appearance\<close>
  "unique cs = rev (remdups (rev cs))"

definition duplicated :: "dataframe \<Rightarrow> string \<Rightarrow> bool" where
  \<comment> \<open>a label carried by two columns: \<^verbatim>\<open>df[c]\<close> is then a table, not a column\<close>
  "duplicated df c = (1 < count_list (columns df) c)"

subsection \<open>Configuration (lines 8, 9, 40-44, 56, 60)\<close>

definition OUTPUT_DIR :: string where
  "OUTPUT_DIR = ''sla_pso_plots''"

definition numeric_cols :: "string list" where
  "numeric_cols =
    [''NumVMs'', ''NumHosts'', ''Landscape'', ''ScalingFactor'', ''SLA_Violations'',
     ''Failed_Allocations'', ''Avg_ResponseTime'', ''Avg_TurnaroundTime'', ''Makespan'',
     ''Throughput'', ''Avg_Host_CPU_Util(%)'', ''StdDev_Host_CPU_Util(%)'', ''Avg_QoS_Index'']"

definition dropna_subset :: "string list" where
  "dropna_subset =
    [''Algorithm'', ''NumVMs'', ''NumHosts'', ''Landscape'', ''StdDev_Host_CPU_Util(%)'']"

definition target_algorithm :: string where
  "target_algorithm = ''SLA-PSO''"

definition landscape_map :: "rat \<Rightarrow> string option" where
  "landscape_map k =
    (if k = 1 then Some ''Homogeneous Small''
     else if k = 2 then Some ''Homogeneous Medium''
     else if k = 3 then Some ''Homogeneous Large''
     else if k = 4 then Some ''Heterogeneous''
     else None)"

subsection \<open>Text helpers\<close>

definition isspace :: "char \<Rightarrow> bool" where
  \<comment> \<open>\<^verbatim>\<open>str.isspace\<close> on the code points below 256\<close>
  "isspace c =
    (let n = (of_char c :: nat)
     in (9 \<le> n \<and> n \<le> 13) \<or> (28 \<le> n \<and> n \<le> 32) \<or> n = 133 \<or> n = 160)"

definition strip :: "string \<Rightarrow> string" where
  \<comment> \<open>\<^verbatim>\<open>str.strip()\<close>\<close>
  "strip s = rev (dropWhile isspace (rev (dropWhile isspace s)))"

subsection \<open>Outcomes of the process\<close>

datatype exn = KeyError | AttributeError | TypeError | PlotError

datatype outcome =
    Completed          \<comment> \<open>the last statement was executed\<close>
  | Exited             \<comment> \<open>\<^verbatim>\<open>exit()\<close> was called\<close>
  | Uncaught exn       \<comment> \<open>an exception reached the top level\<close>

definition exit_code :: "outcome \<Rightarrow> nat" where
  \<comment> \<open>\<^verbatim>\<open>exit()\<close> without an argument raises \<^verbatim>\<open>SystemExit(None)\<close>, status 0;
      a traceback ends the interpreter with status 1\<close>
  "exit_code out = (case out of Completed \<Rightarrow> 0 | Exited \<Rightarrow> 0 | Uncaught e \<Rightarrow> 1)"

section \<open>Cleaning (lines 29-62)\<close>

definition strip_columns :: "dataframe \<Rightarrow> dataframe" where
  \<comment> \<open>line 29: every label is trimmed; a row is read through the first column that
      carries the trimmed label\<close>
  "strip_columns df =
    \<lparr>columns = map strip (columns df),
     rows = map (\<lambda>r c. case find (\<lambda>n. strip n = c) (columns df) of
                           Some n \<Rightarrow> r n | None \<Rightarrow> NaN) (rows df)\<rparr>"

definition is_object :: "cell list \<Rightarrow> bool" where
  \<comment> \<open>the dtype \<^verbatim>\<open>read_csv\<close> gives a column: \<^verbatim>\<open>object\<close> when the column is empty or
      holds a text, a numeric dtype otherwise\<close>
  "is_object cs = (cs = [] \<or> (\<exists>c \<in> set cs. case c of Str s \<Rightarrow> True | _ \<Rightarrow> False))"

definition to_numeric :: "(string \<Rightarrow> rat option) \<Rightarrow> cell \<Rightarrow> cell" where
  \<comment> \<open>\<^verbatim>\<open>pd.to_numeric(..., errors='coerce')\<close> on one value; \<open>parse\<close> is pandas' reading
      of a text as a number\<close>
  "to_numeric parse c =
    (case c of
       Num x \<Rightarrow> Num x
     | Str s \<Rightarrow> (case parse s of Some x \<Rightarrow> Num x | None \<Rightarrow> NaN)
     | NaN \<Rightarrow> NaN)"

definition set_column :: "string \<Rightarrow> (row \<Rightarrow> cell) \<Rightarrow> dataframe \<Rightarrow> dataframe" where
  \<comment> \<open>\<^verbatim>\<open>df[c] = values\<close>: the column is replaced, or appended when the label is new\<close>
  "set_column c f df =
    \<lparr>columns = (if c \<in> set (columns df) then columns df else columns df @ [c]),
     rows = map (\<lambda>r. r(c := f r)) (rows df)\<rparr>"

fun coerce_columns ::
  "(string \<Rightarrow> rat option) \<Rightarrow> string list \<Rightarrow> dataframe \<Rightarrow> string list \<times> (exn + dataframe)" where
  \<comment> \<open>lines 46-48; the first component lists the columns converted\<close>
  "coerce_columns parse [] df = ([], Inr df)"
| "coerce_columns parse (col # cols) df =
    (if col \<in> set (columns df) then
       (if duplicated df col then ([], Inl TypeError)
        else (case coerce_columns parse cols
                     (set_column col (\<lambda>r. to_numeric parse (r col)) df) of
                (done, res) \<Rightarrow> (col # done, res)))
     else coerce_columns parse cols df)"

definition notna :: "cell \<Rightarrow> bool" where
  "notna c = (c \<noteq> NaN)"

definition dropna :: "string list \<Rightarrow> dataframe \<Rightarrow> exn + dataframe" where
  \<comment> \<open>line 51: \<^verbatim>\<open>df.dropna(subset=...)\<close> raises \<^verbatim>\<open>KeyError\<close> on a label that is no column\<close>
  "dropna labels df =
    (if \<exists>c \<in> set labels. c \<notin> set (columns df) then Inl KeyError
     else Inr (df\<lparr>rows := filter (\<lambda>r. \<forall>c \<in> set labels. notna (r c)) (rows df)\<rparr>))"

definition str_strip :: "cell \<Rightarrow> cell" where
  \<comment> \<open>\<^verbatim>\<open>Series.str.strip()\<close> on one value: a value that is no text becomes missing\<close>
  "str_strip c = (case c of Str s \<Rightarrow> Str (strip s) | _ \<Rightarrow> NaN)"

definition is_target :: "row \<Rightarrow> bool" where
  \<comment> \<open>the mask of line 57\<close>
  "is_target r = (str_strip (r ''Algorithm'') = Str target_algorithm)"

definition filter_algorithm :: "bool \<Rightarrow> dataframe \<Rightarrow> exn + dataframe" where
  \<comment> \<open>line 57; \<open>obj\<close> says that the Algorithm column has dtype \<^verbatim>\<open>object\<close>: the \<^verbatim>\<open>.str\<close>
      accessor of a numeric column raises \<^verbatim>\<open>AttributeError\<close>\<close>
  "filter_algorithm obj df =
    (if obj then Inr (df\<lparr>rows := filter is_target (rows df)\<rparr>) else Inl AttributeError)"

definition landscape_desc :: "cell \<Rightarrow> string" where
  \<comment> \<open>line 62: \<^verbatim>\<open>.map(landscape_map).fillna('Unknown')\<close> on one value\<close>
  "landscape_desc c =
    (case c of
       Num k \<Rightarrow> (case landscape_map k of Some l \<Rightarrow> l | None \<Rightarrow> ''Unknown'')
     | _ \<Rightarrow> ''Unknown'')"

definition add_landscape_desc :: "dataframe \<Rightarrow> dataframe" where
  \<comment> \<open>lines 61-62\<close>
  "add_landscape_desc df =
    (if ''Landscape'' \<in> set (columns df)
     then set_column ''Landscape_Desc'' (\<lambda>r. Str (landscape_desc (r ''Landscape''))) df
     else df)"

section \<open>Aggregation (lines 124-129, 141-146, 158-176)\<close>

definition select_rows :: "string \<Rightarrow> rat \<Rightarrow> string \<Rightarrow> rat \<Rightarrow> dataframe \<Rightarrow> dataframe" where
  \<comment> \<open>\<^verbatim>\<open>df[(df[c1] == v1) & (df[c2] == v2)]\<close>\<close>
  "select_rows c1 v1 c2 v2 df =
    df\<lparr>rows := filter (\<lambda>r. r c1 = Num v1 \<and> r c2 = Num v2) (rows df)\<rparr>"

definition mean :: "cell list \<Rightarrow> cell" where
  \<comment> \<open>the aggregate \<^verbatim>\<open>'mean'\<close>: missing values are skipped, and a group with no value
      has a missing mean\<close>
  "mean cs =
    (let xs = [x. Num x \<leftarrow> cs]
     in if xs = [] then NaN else Num (sum_list xs / of_nat (length xs)))"

definition num_value :: "cell \<Rightarrow> rat" where
  \<comment> \<open>the number in a cell that holds one\<close>
  "num_value c = (case c of Num x \<Rightarrow> x | _ \<Rightarrow> 0)"

definition group_keys :: "string \<Rightarrow> dataframe \<Rightarrow> rat list" where
  \<comment> \<open>the groups of \<^verbatim>\<open>groupby([key])\<close> on a numeric column: the distinct values in
      ascending order, missing keys left out\<close>
  "group_keys key df = sort (remdups [k. Num k \<leftarrow> column df key])"

definition groupby_mean :: "string \<Rightarrow> string \<Rightarrow> dataframe \<Rightarrow> (cell \<times> cell) list" where
  \<comment> \<open>\<^verbatim>\<open>df.groupby([key]).agg(name=(val, 'mean')).reset_index()\<close>, as its rows\<close>
  "groupby_mean key val df =
    map (\<lambda>k. (Num k, mean [r val. r \<leftarrow> rows df, r key = Num k])) (group_keys key df)"

definition vm_scaling_data :: "dataframe \<Rightarrow> dataframe" where
  "vm_scaling_data sla = select_rows ''NumHosts'' 5 ''Landscape'' 4 sla"

definition vm_scaling_grouped :: "dataframe \<Rightarrow> (cell \<times> cell) list" where
  "vm_scaling_grouped sla =
    groupby_mean ''NumVMs'' ''StdDev_Host_CPU_Util(%)'' (vm_scaling_data sla)"

definition host_scaling_data :: "dataframe \<Rightarrow> dataframe" where
  "host_scaling_data sla = select_rows ''NumVMs'' 30 ''Landscape'' 4 sla"

definition host_scaling_grouped :: "dataframe \<Rightarrow> (cell \<times> cell) list" where
  "host_scaling_grouped sla =
    groupby_mean ''NumHosts'' ''StdDev_Host_CPU_Util(%)'' (host_scaling_data sla)"

definition landscape_order :: "string list" where
  "landscape_order =
    [''Homogeneous Small'', ''Homogeneous Medium'', ''Homogeneous Large'', ''Heterogeneous'']"

definition categories :: "dataframe \<Rightarrow> string list" where
  \<comment> \<open>line 165: the labels of \<open>landscape_order\<close> that occur in the data\<close>
  "categories df = [l \<leftarrow> landscape_order. Str l \<in> set (unique (column df ''Landscape_Desc''))]"

definition as_categorical :: "string list \<Rightarrow> cell \<Rightarrow> cell" where
  \<comment> \<open>\<^verbatim>\<open>pd.Categorical\<close>: a value outside the categories becomes missing\<close>
  "as_categorical cats c =
    (case c of Str l \<Rightarrow> (if l \<in> set cats then Str l else NaN) | _ \<Rightarrow> NaN)"

definition category_rank :: "string list \<Rightarrow> cell \<Rightarrow> nat" where
  \<comment> \<open>the position of a category; missing values are sorted last\<close>
  "category_rank cats c =
    (case c of Str l \<Rightarrow> length (takeWhile (\<lambda>x. x \<noteq> l) cats) | _ \<Rightarrow> length cats)"

definition landscape_variation_data :: "dataframe \<Rightarrow> dataframe" where
  \<comment> \<open>line 158\<close>
  "landscape_variation_data sla = select_rows ''NumVMs'' 30 ''NumHosts'' 5 sla"

definition landscape_sorted :: "dataframe \<Rightarrow> dataframe" where
  \<comment> \<open>lines 163-168, on a slice that is not empty; rows of one category keep their
      order here, which pandas' default sort does not promise\<close>
  "landscape_sorted d =
    (let cats = categories d;
         c = set_column ''Landscape_Desc'' (\<lambda>r. as_categorical cats (r ''Landscape_Desc'')) d
     in c\<lparr>rows := sort_key (\<lambda>r. category_rank cats (r ''Landscape_Desc'')) (rows c)\<rparr>)"

definition landscape_grouped :: "dataframe \<Rightarrow> (cell \<times> cell) list" where
  \<comment> \<open>line 176: one row for each category, in the order of the categories\<close>
  "landscape_grouped d =
    map (\<lambda>l. (Str l, mean [r ''StdDev_Host_CPU_Util(%)''. r \<leftarrow> rows (landscape_sorted d),
                                r ''Landscape_Desc'' = Str l]))
        (categories d)"

definition xy :: "string \<Rightarrow> string \<Rightarrow> dataframe \<Rightarrow> (cell \<times> cell) list" where
  \<comment> \<open>the two columns of a table that a chart reads\<close>
  "xy x y df = map (\<lambda>r. (r x, r y)) (rows df)"

section \<open>The run and what it leaves behind\<close>

datatype chart = Line | Bar | Boxplot

datatype msg =
    CreatedOutputDir                \<comment> \<open>line 14\<close>
  | LoadedOk                        \<comment> \<open>line 19\<close>
  | FileNotFoundMsg                 \<comment> \<open>line 21\<close>
  | LoadFailedMsg string            \<comment> \<open>line 24\<close>
  | UniqueAlgorithmsHeader          \<comment> \<open>line 32\<close>
  | Values "cell list"              \<comment> \<open>line 34\<close>
  | AlgorithmColumnMissing          \<comment> \<open>line 36\<close>
  | Shape nat nat                   \<comment> \<open>line 64\<close>
  | UniqueOf string "cell list"     \<comment> \<open>lines 65-67\<close>
  | NoDataVmScaling                 \<comment> \<open>line 135\<close>
  | NoDataHostScaling               \<comment> \<open>line 152\<close>
  | NoDataLandscape                 \<comment> \<open>line 183\<close>
  | PlotSaved string                \<comment> \<open>lines 84, 99, 115\<close>
  | AnalysisComplete                \<comment> \<open>line 185\<close>

datatype event =
    MakeDirs                                  \<comment> \<open>\<^verbatim>\<open>os.makedirs(OUTPUT_DIR)\<close>\<close>
  | ReadCsv                                   \<comment> \<open>\<^verbatim>\<open>pd.read_csv\<close> is called\<close>
  | Print msg
  | ToNumeric string                          \<comment> \<open>a column was converted\<close>
  | DropNa                                    \<comment> \<open>the rows were dropped\<close>
  | FilterAlgorithm                           \<comment> \<open>the algorithm was selected\<close>
  | PlotCall chart string "(cell \<times> cell) list" \<comment> \<open>a plot function is entered\<close>
  | SaveFig string                            \<comment> \<open>\<^verbatim>\<open>plt.savefig\<close> wrote the file\<close>

datatype load = FileNotFoundError | OtherError string | Table dataframe

text \<open>
  What the run meets outside the script: whether the output directory is there, what
  \<^verbatim>\<open>pd.read_csv\<close> does on the fixed path, how pandas reads a text as a number, and
  whether drawing or saving the chart of a given path raises. Creating the directory
  is taken to succeed.
\<close>

record env =
  dir_exists :: bool
  read_csv :: load
  parse_number :: "string \<Rightarrow> rat option"
  plot_raises :: "string \<Rightarrow> bool"

text \<open>
  A step of the script gives the events it produced and either the outcome that ended
  the process or the value the next statement goes on with.
\<close>

type_synonym 'a step = "event list \<times> (outcome + 'a)"

definition and_then :: "'a step \<Rightarrow> ('a \<Rightarrow> 'b step) \<Rightarrow> 'b step" where
  "and_then m f =
    (case m of
       (t, Inl out) \<Rightarrow> (t, Inl out)
     | (t, Inr a) \<Rightarrow> (case f a of (t', r) \<Rightarrow> (t @ t', r)))"

definition raising :: "event list \<Rightarrow> exn + 'a \<Rightarrow> 'a step" where
  \<comment> \<open>a library call: its exception is not caught; \<open>es\<close> are the events of its success\<close>
  "raising es res = (case res of Inl e \<Rightarrow> ([], Inl (Uncaught e)) | Inr a \<Rightarrow> (es, Inr a))"

subsection \<open>Lines 11-37\<close>

definition ensure_output_dir :: "env \<Rightarrow> unit step" where
  "ensure_output_dir env =
    (if \<not> dir_exists env then ([MakeDirs, Print CreatedOutputDir], Inr ()) else ([], Inr ()))"

definition load_data :: "env \<Rightarrow> dataframe step" where
  "load_data env =
    (case read_csv env of
       Table df \<Rightarrow> ([ReadCsv, Print LoadedOk], Inr df)
     | FileNotFoundError \<Rightarrow> ([ReadCsv, Print FileNotFoundMsg], Inl Exited)
     | OtherError e \<Rightarrow> ([ReadCsv, Print (LoadFailedMsg e)], Inl Exited))"

definition series_unique :: "dataframe \<Rightarrow> string \<Rightarrow> exn + cell list" where
  \<comment> \<open>\<^verbatim>\<open>df[c].unique()\<close>: \<^verbatim>\<open>KeyError\<close> without the column; with the label on two
      columns \<^verbatim>\<open>df[c]\<close> is a table, which has no \<^verbatim>\<open>unique\<close>\<close>
  "series_unique df c =
    (if c \<notin> set (columns df) then Inl KeyError
     else if duplicated df c then Inl AttributeError
     else Inr (unique (column df c)))"

definition check_algorithm :: "dataframe \<Rightarrow> unit step" where
  \<comment> \<open>lines 32-37\<close>
  "check_algorithm df =
    and_then ([Print UniqueAlgorithmsHeader], Inr ())
      (\<lambda>_. if ''Algorithm'' \<in> set (columns df)
            then (case series_unique df ''Algorithm'' of
                    Inl e \<Rightarrow> ([], Inl (Uncaught e))
                  | Inr vs \<Rightarrow> ([Print (Values vs)], Inr ()))
            else ([Print AlgorithmColumnMissing], Inl Exited))"

subsection \<open>Lines 46-67\<close>

definition convert_columns :: "env \<Rightarrow> dataframe \<Rightarrow> dataframe step" where
  "convert_columns env df =
    (case coerce_columns (parse_number env) numeric_cols df of
       (done, res) \<Rightarrow>
         (map ToNumeric done, case res of Inl e \<Rightarrow> Inl (Uncaught e) | Inr df' \<Rightarrow> Inr df'))"

definition print_unique :: "dataframe \<Rightarrow> string \<Rightarrow> unit step" where
  "print_unique df c =
    (case series_unique df c of
       Inl e \<Rightarrow> ([], Inl (Uncaught e))
     | Inr vs \<Rightarrow> ([Print (UniqueOf c vs)], Inr ()))"

definition clean :: "env \<Rightarrow> dataframe \<Rightarrow> dataframe step" where
  \<comment> \<open>lines 29-67, from the loaded table to \<^verbatim>\<open>sla_pso_df\<close>\<close>
  "clean env df0 =
    (let df = strip_columns df0
     in and_then (check_algorithm df) (\<lambda>_.
        and_then (convert_columns env df) (\<lambda>df1.
        and_then (raising [DropNa] (dropna dropna_subset df1)) (\<lambda>df2.
        and_then (raising [FilterAlgorithm]
                    (filter_algorithm (is_object (column df ''Algorithm'')) df2)) (\<lambda>sel.
        let sla = add_landscape_desc sel
        in and_then ([Print (Shape (length (rows sla)) (length (columns sla)))], Inr ()) (\<lambda>_.
           and_then (print_unique sla ''NumVMs'') (\<lambda>_.
           and_then (print_unique sla ''NumHosts'') (\<lambda>_.
           and_then (print_unique sla ''Landscape_Desc'') (\<lambda>_.
           ([], Inr sla))))))))))"

definition sla_pso_df :: "env \<Rightarrow> dataframe \<Rightarrow> dataframe option" where
  \<comment> \<open>the table \<^verbatim>\<open>sla_pso_df\<close> of a run that gets past line 67\<close>
  "sla_pso_df env df0 = (case snd (clean env df0) of Inr sla \<Rightarrow> Some sla | Inl out \<Rightarrow> None)"

subsection \<open>The plotting functions (lines 72-116)\<close>

definition replace_char :: "char \<Rightarrow> string \<Rightarrow> string \<Rightarrow> string" where
  \<comment> \<open>\<^verbatim>\<open>s.replace(c, new)\<close> for a single character \<open>c\<close>\<close>
  "replace_char c new s = concat (map (\<lambda>x. if x = c then new else [x]) s)"

definition plot_path :: "string \<Rightarrow> string \<Rightarrow> string \<Rightarrow> string" where
  \<comment> \<open>lines 82, 97, 113, with \<^verbatim>\<open>os.path.join\<close> of a POSIX system\<close>
  "plot_path filename_prefix y_axis kind =
    OUTPUT_DIR @ ''/'' @ filename_prefix @ ''_'' @
    replace_char CHR ''%'' ''pct'' (replace_char CHR '')'' [] (replace_char CHR ''('' [] y_axis))
    @ ''_'' @ kind @ ''.png''"

definition chart_kind :: "chart \<Rightarrow> string" where
  "chart_kind ch = (case ch of Line \<Rightarrow> ''line'' | Bar \<Rightarrow> ''bar'' | Boxplot \<Rightarrow> ''boxplot'')"

definition plot_single ::
  "env \<Rightarrow> chart \<Rightarrow> (cell \<times> cell) list \<Rightarrow> string \<Rightarrow> string \<Rightarrow> unit step" where
  \<comment> \<open>\<^verbatim>\<open>plot_line_single\<close>, \<^verbatim>\<open>plot_bar_single\<close> and \<^verbatim>\<open>plot_boxplot_single\<close>: nothing in
      them catches an exception of the plotting library\<close>
  "plot_single env ch data y_axis filename_prefix =
    (let p = plot_path filename_prefix y_axis (chart_kind ch)
     in if plot_raises env p then ([PlotCall ch p data], Inl (Uncaught PlotError))
        else ([PlotCall ch p data, SaveFig p, Print (PlotSaved p)], Inr ()))"

subsection \<open>The three analyses (lines 121-185)\<close>

definition vm_scaling :: "env \<Rightarrow> dataframe \<Rightarrow> unit step" where
  "vm_scaling env sla =
    (if rows (vm_scaling_data sla) \<noteq> []
     then plot_single env Line (vm_scaling_grouped sla)
            ''Avg_StdDev_Host_CPU_Util_Pct'' ''sla_pso_vm_scaling_stddev_cpu_util''
     else ([Print NoDataVmScaling], Inr ()))"

definition host_scaling :: "env \<Rightarrow> dataframe \<Rightarrow> unit step" where
  "host_scaling env sla =
    (if rows (host_scaling_data sla) \<noteq> []
     then plot_single env Line (host_scaling_grouped sla)
            ''Avg_StdDev_Host_CPU_Util_Pct'' ''sla_pso_host_scaling_stddev_cpu_util''
     else ([Print NoDataHostScaling], Inr ()))"

definition landscape_variation :: "env \<Rightarrow> dataframe \<Rightarrow> unit step" where
  "landscape_variation env sla =
    (let d = landscape_variation_data sla
     in if rows d \<noteq> []
        then and_then (plot_single env Bar
                         (xy ''Landscape_Desc'' ''StdDev_Host_CPU_Util(%)'' (landscape_sorted d))
                         ''StdDev_Host_CPU_Util(%)'' ''sla_pso_landscape_stddev_cpu_util'') (\<lambda>_.
             and_then (plot_single env Line (landscape_grouped d)
                         ''StdDev_Host_CPU_Util(%)'' ''sla_pso_landscape_stddev_cpu_util_curve'') (\<lambda>_.
             plot_single env Boxplot
                         (xy ''Landscape_Desc'' ''StdDev_Host_CPU_Util(%)'' (landscape_sorted d))
                         ''StdDev_Host_CPU_Util(%)'' ''sla_pso_landscape_stddev_cpu_util_boxplot''))
        else ([Print NoDataLandscape], Inr ()))"

definition analyse :: "env \<Rightarrow> dataframe \<Rightarrow> unit step" where
  "analyse env sla =
    and_then (vm_scaling env sla) (\<lambda>_.
    and_then (host_scaling env sla) (\<lambda>_.
    and_then (landscape_variation env sla) (\<lambda>_.
    ([Print AnalysisComplete], Inr ()))))"

definition script :: "env \<Rightarrow> unit step" where
  "script env =
    and_then (ensure_output_dir env) (\<lambda>_.
    and_then (load_data env) (\<lambda>df0.
    and_then (clean env df0) (\<lambda>sla.
    analyse env sla)))"

definition run :: "env \<Rightarrow> event list \<times> outcome" where
  \<comment> \<open>the whole process: its events and how it ended\<close>
  "run env = (case script env of (t, Inl out) \<Rightarrow> (t, out) | (t, Inr _) \<Rightarrow> (t, Completed))"

definition trace :: "env \<Rightarrow> event list" where
  "trace env = fst (run env)"

definition status :: "env \<Rightarrow> nat" where
  "status env = exit_code (snd (run env))"


definition files_of :: "event list \<Rightarrow> string list" where
  \<comment> \<open>the files written during some events\<close>
  "files_of t = [p. SaveFig p \<leftarrow> t]"

definition calls_of :: "event list \<Rightarrow> string list" where
  \<comment> \<open>the charts whose plot function was entered during some events, by their paths\<close>
  "calls_of t = [p. PlotCall ch p d \<leftarrow> t]"

definition output_files :: "env \<Rightarrow> string list" where
  "output_files env = files_of (trace env)"

definition plot_calls :: "env \<Rightarrow> string list" where
  \<comment> \<open>the charts whose plot function was entered, by their paths, in order\<close>
  "plot_calls env = calls_of (trace env)"


section \<open>Properties of steps\<close>

definition plot_free :: "'a step \<Rightarrow> bool" where
  \<comment> \<open>the step enters no plot function and writes no file\<close>
  "plot_free s = (calls_of (fst s) = [] \<and> files_of (fst s) = [])"

definition no_exit :: "'a step \<Rightarrow> bool" where
  \<comment> \<open>the step does not call \<^verbatim>\<open>exit()\<close>\<close>
  "no_exit s = (snd s \<noteq> Inl Exited)"


section \<open>Example inputs\<close>

definition table_of :: "string list \<Rightarrow> cell list list \<Rightarrow> dataframe" where
  \<comment> \<open>the table of a header and the cells of each line\<close>
  "table_of header lines =
    \<lparr>columns = header,
     rows = map (\<lambda>cs c. case map_of (zip header cs) c of Some v \<Rightarrow> v | None \<Rightarrow> NaN) lines\<rparr>"

definition header5 :: "string list" where
  "header5 = [''Algorithm'', ''NumVMs'', ''NumHosts'', ''Landscape'', ''StdDev_Host_CPU_Util(%)'']"

definition six_rows :: dataframe where
  \<comment> \<open>the six-row table of the end-to-end property\<close>
  "six_rows = table_of header5
    [[Str ''SLA-PSO'', Num 10, Num 5, Num 4, Num 1],
     [Str ''SLA-PSO'', Num 10, Num 5, Num 4, Num 2],
     [Str ''SLA-PSO'', Num 20, Num 5, Num 4, Num 3],
     [Str ''SLA-PSO'', Num 20, Num 5, Num 4, Num 4],
     [Str ''SLA-PSO'', Num 30, Num 5, Num 4, Num 5],
     [Str ''SLA-PSO'', Num 30, Num 5, Num 4, Num 6]]"

definition messy_table :: dataframe where
  \<comment> \<open>padded labels and names, a text in a numeric column, another algorithm and a
      landscape code outside the map\<close>
  "messy_table = table_of
    ['' Algorithm '', ''NumVMs'', ''NumHosts '', ''Landscape'', ''StdDev_Host_CPU_Util(%)'']
    [[Str '' SLA-PSO'', Num 30, Num 5, Num 4, Num (5 / 2)],
     [Str ''SLA-PSO '', Str ''abc'', Num 5, Num 4, Num 1],
     [Str ''GA'', Num 30, Num 5, Num 4, Num 9],
     [Str ''SLA-PSO'', Num 30, Num 5, Num 7, Num 3]]"

definition no_host_slice :: dataframe where
  \<comment> \<open>no row with 30 VMs on landscape 4\<close>
  "no_host_slice = table_of header5
    [[Str ''SLA-PSO'', Num 10, Num 5, Num 4, Num 1],
     [Str ''SLA-PSO'', Num 30, Num 5, Num 1, Num 2]]"

definition no_algorithm :: dataframe where
  "no_algorithm = table_of [''Algo'', ''NumVMs''] [[Str ''SLA-PSO'', Str ''ten'']]"

definition no_numvms :: dataframe where
  "no_numvms = table_of [''Algorithm'', ''NumHosts'', ''Landscape'', ''StdDev_Host_CPU_Util(%)'']
    [[Str ''SLA-PSO'', Num 5, Num 4, Num 1]]"

definition padded_names :: dataframe where
  "padded_names = table_of [''Algorithm'']
    [[Str ''SLA-PSO ''], [Str '' SLA-PSO''], [Str ''SLA-PSO''], [Str ''SLA_PSO''], [Num 7]]"

definition example_env :: "load \<Rightarrow> env" where
  \<comment> \<open>a first run in a fresh directory, with a plotting library that works\<close>
  "example_env l =
    \<lparr>dir_exists = False, read_csv = l, parse_number = (\<lambda>s. None), plot_raises = (\<lambda>p. False)\<rparr>"

definition vm_plot_path :: string where
  "vm_plot_path = plot_path ''sla_pso_vm_scaling_stddev_cpu_util'' ''Avg_StdDev_Host_CPU_Util_Pct'' ''line''"

definition host_plot_path :: string where
  "host_plot_path = plot_path ''sla_pso_host_scaling_stddev_cpu_util'' ''Avg_StdDev_Host_CPU_Util_Pct'' ''line''"

definition bar_plot_path :: string where
  "bar_plot_path = plot_path ''sla_pso_landscape_stddev_cpu_util'' ''StdDev_Host_CPU_Util(%)'' ''bar''"

definition curve_plot_path :: string where
  "curve_plot_path =
    plot_path ''sla_pso_landscape_stddev_cpu_util_curve'' ''StdDev_Host_CPU_Util(%)'' ''line''"

definition box_plot_path :: string where
  "box_plot_path =
    plot_path ''sla_pso_landscape_stddev_cpu_util_boxplot'' ''StdDev_Host_CPU_Util(%)'' ''boxplot''"


definition bar_failing_env :: env where
  \<comment> \<open>the bar chart of the landscape analysis cannot be drawn\<close>
  "bar_failing_env =
    \<lparr>dir_exists = True, read_csv = Table no_host_slice, parse_number = (\<lambda>s. None),
     plot_raises = (\<lambda>p. p = bar_plot_path)\<rparr>"

definition two_algorithm_labels :: dataframe where
  \<comment> \<open>two labels that are both \<^verbatim>\<open>Algorithm\<close> once trimmed, and no NumVMs\<close>
  "two_algorithm_labels = table_of
    [''Algorithm'', ''Algorithm '', ''NumHosts'', ''Landscape'', ''StdDev_Host_CPU_Util(%)'']
    [[Str ''SLA-PSO'', Str ''SLA-PSO'', Num 5, Num 4, Num 1]]"

definition two_numhosts_labels :: dataframe where
  \<comment> \<open>two labels that are both \<^verbatim>\<open>NumHosts\<close> once trimmed, and no NumVMs\<close>
  "two_numhosts_labels = table_of
    [''Algorithm'', ''NumHosts'', ''NumHosts '', ''Landscape'', ''StdDev_Host_CPU_Util(%)'']
    [[Str ''SLA-PSO'', Num 5, Num 5, Num 4, Num 1]]"

section \<open>Facts about the steps\<close>

lemma and_then_Inl [simp]: "and_then (t, Inl out) f = (t, Inl out)"
  by (simp add: and_then_def)

lemma and_then_Inr [simp]: "and_then (t, Inr a) f = (t @ fst (f a), snd (f a))"
  by (simp add: and_then_def split: prod.splits)

lemma and_then_eq_Inr:
  "and_then m f = (t, Inr b) \<longleftrightarrow>
     (\<exists>t1 a t2. m = (t1, Inr a) \<and> f a = (t2, Inr b) \<and> t = t1 @ t2)"
  by (cases m; cases "snd m") (auto simp: and_then_def split: prod.splits)

lemma raising_eq_Inr:
  "raising es res = (t, Inr a) \<longleftrightarrow> res = Inr a \<and> t = es"
  by (auto simp: raising_def split: sum.splits)

lemma to_numeric_idem [simp]: "to_numeric p (to_numeric p c) = to_numeric p c"
  by (cases c) (auto simp: to_numeric_def split: option.splits)

lemma to_numeric_not_Str [simp]: "to_numeric p c \<noteq> Str s"
  by (cases c) (auto simp: to_numeric_def split: option.splits)

lemma columns_set_column_mem [simp]:
  "c \<in> set (columns df) \<Longrightarrow> columns (set_column c f df) = columns df"
  by (simp add: set_column_def)

lemma rows_set_column [simp]:
  "rows (set_column c f df) = map (\<lambda>r. r(c := f r)) (rows df)"
  by (simp add: set_column_def)

lemma coerce_columns_Inr:
  "coerce_columns p cols df = (done, Inr df') \<Longrightarrow>
     columns df' = columns df \<and>
     rows df' = map (\<lambda>r c. if c \<in> set cols \<and> c \<in> set (columns df)
                              then to_numeric p (r c) else r c) (rows df)"
proof (induction cols arbitrary: df "done")
  case Nil
  then show ?case by simp
next
  case (Cons col cols)
  show ?case
  proof (cases "col \<in> set (columns df)")
    case False
    with Cons.prems have "coerce_columns p cols df = (done, Inr df')" by simp
    from Cons.IH [OF this] False show ?thesis
      by (auto intro!: ext)
  next
    case True
    let ?d = "set_column col (\<lambda>r. to_numeric p (r col)) df"
    from True Cons.prems obtain done' where
      rec: "coerce_columns p cols ?d = (done', Inr df')"
      by (auto split: if_splits prod.splits)
    from Cons.IH [OF rec] True show ?thesis
      by (auto intro!: ext simp: comp_def)
  qed
qed

lemma coerce_columns_Inl:
  "coerce_columns p cols df = (done, Inl e) \<Longrightarrow> e = TypeError"
  by (induction cols arbitrary: df "done") (auto split: if_splits prod.splits)

lemma duplicated_set_column [simp]:
  "c \<in> set (columns df) \<Longrightarrow> duplicated (set_column c f df) c' = duplicated df c'"
  by (simp add: duplicated_def)

lemma coerce_columns_ok:
  "\<forall>c \<in> set cols. \<not> duplicated df c \<Longrightarrow> \<exists>done df'. coerce_columns p cols df = (done, Inr df')"
proof (induction cols arbitrary: df)
  case Nil
  then show ?case by simp
next
  case (Cons col cols)
  show ?case
  proof (cases "col \<in> set (columns df)")
    case False
    with Cons show ?thesis by simp
  next
    case True
    let ?d = "set_column col (\<lambda>r. to_numeric p (r col)) df"
    from Cons.prems True have "\<forall>c \<in> set cols. \<not> duplicated ?d c" by simp
    from Cons.IH [OF this] obtain done' df' where "coerce_columns p cols ?d = (done', Inr df')"
      by blast
    with True Cons.prems show ?thesis by simp
  qed
qed


lemma clean_InrE:
  assumes "clean env df0 = (t, Inr sla)"
  obtains done' df1 df2 sel where
    "''Algorithm'' \<in> set (columns (strip_columns df0))"
    "coerce_columns (parse_number env) numeric_cols (strip_columns df0) = (done', Inr df1)"
    "dropna dropna_subset df1 = Inr df2"
    "filter_algorithm (is_object (column (strip_columns df0) ''Algorithm'')) df2 = Inr sel"
    "sla = add_landscape_desc sel"
proof -
  let ?df = "strip_columns df0"
  from assms obtain t1 t2 where
    chk: "check_algorithm ?df = (t1, Inr ())" and
    rest: "and_then (convert_columns env ?df) (\<lambda>df1.
        and_then (raising [DropNa] (dropna dropna_subset df1)) (\<lambda>df2.
        and_then (raising [FilterAlgorithm]
                    (filter_algorithm (is_object (column ?df ''Algorithm'')) df2)) (\<lambda>sel.
        let sla = add_landscape_desc sel
        in and_then ([Print (Shape (length (rows sla)) (length (columns sla)))], Inr ()) (\<lambda>_.
           and_then (print_unique sla ''NumVMs'') (\<lambda>_.
           and_then (print_unique sla ''NumHosts'') (\<lambda>_.
           and_then (print_unique sla ''Landscape_Desc'') (\<lambda>_.
           ([], Inr sla)))))))) = (t2, Inr sla)"
    unfolding clean_def Let_def and_then_eq_Inr by auto
  from chk have alg: "''Algorithm'' \<in> set (columns ?df)"
    by (auto simp: check_algorithm_def split: if_splits)
  from rest obtain ta df1 tb where
    conv: "convert_columns env ?df = (ta, Inr df1)" and
    rest2: "and_then (raising [DropNa] (dropna dropna_subset df1)) (\<lambda>df2.
        and_then (raising [FilterAlgorithm]
                    (filter_algorithm (is_object (column ?df ''Algorithm'')) df2)) (\<lambda>sel.
        let sla = add_landscape_desc sel
        in and_then ([Print (Shape (length (rows sla)) (length (columns sla)))], Inr ()) (\<lambda>_.
           and_then (print_unique sla ''NumVMs'') (\<lambda>_.
           and_then (print_unique sla ''NumHosts'') (\<lambda>_.
           and_then (print_unique sla ''Landscape_Desc'') (\<lambda>_.
           ([], Inr sla))))))) = (tb, Inr sla)"
    unfolding and_then_eq_Inr by auto
  from conv obtain done' where
    co: "coerce_columns (parse_number env) numeric_cols ?df = (done', Inr df1)"
    by (auto simp: convert_columns_def split: prod.splits sum.splits)
  from rest2 obtain df2 tc where
    dr: "dropna dropna_subset df1 = Inr df2" and
    rest3: "and_then (raising [FilterAlgorithm]
                    (filter_algorithm (is_object (column ?df ''Algorithm'')) df2)) (\<lambda>sel.
        let sla = add_landscape_desc sel
        in and_then ([Print (Shape (length (rows sla)) (length (columns sla)))], Inr ()) (\<lambda>_.
           and_then (print_unique sla ''NumVMs'') (\<lambda>_.
           and_then (print_unique sla ''NumHosts'') (\<lambda>_.
           and_then (print_unique sla ''Landscape_Desc'') (\<lambda>_.
           ([], Inr sla)))))) = (tc, Inr sla)"
    unfolding and_then_eq_Inr raising_eq_Inr by auto
  from rest3 obtain sel where
    fi: "filter_algorithm (is_object (column ?df ''Algorithm'')) df2 = Inr sel" and
    sl: "sla = add_landscape_desc sel"
    unfolding and_then_eq_Inr raising_eq_Inr Let_def by auto
  from alg co dr fi sl show thesis by (rule that)
qed


lemma dropna_Inr:
  "dropna labels df = Inr df' \<longleftrightarrow>
     set labels \<subseteq> set (columns df) \<and>
     df' = df\<lparr>rows := filter (\<lambda>r. \<forall>c \<in> set labels. notna (r c)) (rows df)\<rparr>"
  by (auto simp: dropna_def)

lemma filter_algorithm_Inr:
  "filter_algorithm obj df = Inr df' \<longleftrightarrow> obj \<and> df' = df\<lparr>rows := filter is_target (rows df)\<rparr>"
  by (auto simp: filter_algorithm_def)

lemma is_target_iff:
  "is_target r \<longleftrightarrow> (\<exists>s. r ''Algorithm'' = Str s \<and> strip s = target_algorithm)"
  by (cases "r ''Algorithm''") (auto simp: is_target_def str_strip_def)

lemma not_Str_notna_Num: "notna c \<Longrightarrow> \<forall>s. c \<noteq> Str s \<Longrightarrow> \<exists>k. c = Num k"
  by (cases c) (auto simp: notna_def)

lemma clean_rows:
  assumes "clean env df0 = (t, Inr sla)" and "r \<in> set (rows sla)"
  shows "(\<exists>s. r ''Algorithm'' = Str s \<and> strip s = target_algorithm) \<and>
         (\<exists>k. r ''NumVMs'' = Num k) \<and> (\<exists>k. r ''NumHosts'' = Num k) \<and>
         (\<exists>k. r ''Landscape'' = Num k) \<and> (\<exists>k. r ''StdDev_Host_CPU_Util(%)'' = Num k) \<and>
         r ''Landscape_Desc'' = Str (landscape_desc (r ''Landscape''))"
proof -
  let ?df = "strip_columns df0"
  let ?p = "parse_number env"
  from assms(1) obtain done' df1 df2 sel where
    co: "coerce_columns ?p numeric_cols ?df = (done', Inr df1)" and
    dr: "dropna dropna_subset df1 = Inr df2" and
    fi: "filter_algorithm (is_object (column ?df ''Algorithm'')) df2 = Inr sel" and
    sl: "sla = add_landscape_desc sel"
    by (rule clean_InrE)
  note c1 = coerce_columns_Inr [OF co]
  from dr have sub: "set dropna_subset \<subseteq> set (columns df1)"
    and df2: "df2 = df1\<lparr>rows := filter (\<lambda>r. \<forall>c \<in> set dropna_subset. notna (r c)) (rows df1)\<rparr>"
    by (simp_all add: dropna_Inr)
  from fi have sel: "sel = df2\<lparr>rows := filter is_target (rows df2)\<rparr>"
    by (simp add: filter_algorithm_Inr)
  from sub have land: "''Landscape'' \<in> set (columns sel)"
    by (simp add: sel df2 dropna_subset_def)
  with sl assms(2) obtain r' where r': "r' \<in> set (rows sel)"
    and r: "r = r'(''Landscape_Desc'' := Str (landscape_desc (r' ''Landscape'')))"
    by (auto simp: add_landscape_desc_def)
  from r' have tgt: "is_target r'" and na: "\<forall>c \<in> set dropna_subset. notna (r' c)"
    and in1: "r' \<in> set (rows df1)"
    by (auto simp: sel df2)
  from in1 c1 obtain r0 where
    r0: "r' = (\<lambda>c. if c \<in> set numeric_cols \<and> c \<in> set (columns ?df)
                     then to_numeric ?p (r0 c) else r0 c)"
    by auto
  have num: "\<exists>k. r' c = Num k"
    if "c \<in> set numeric_cols" and "c \<in> set dropna_subset" for c
  proof -
    from that sub c1 have "r' c = to_numeric ?p (r0 c)" by (auto simp: r0)
    then have "\<forall>s. r' c \<noteq> Str s" by simp
    moreover from na that have "notna (r' c)" by blast
    ultimately show ?thesis by (rule not_Str_notna_Num [rotated])
  qed
  have "\<exists>k. r' ''NumVMs'' = Num k" "\<exists>k. r' ''NumHosts'' = Num k"
    "\<exists>k. r' ''Landscape'' = Num k" "\<exists>k. r' ''StdDev_Host_CPU_Util(%)'' = Num k"
    by (rule num; simp add: numeric_cols_def dropna_subset_def)+
  with tgt show ?thesis
    by (simp add: r is_target_iff)
qed


lemma clean_rows_eq:
  assumes "clean env df0 = (t, Inr sla)"
  shows "rows sla =
    map (\<lambda>r. r(''Landscape_Desc'' := Str (landscape_desc (r ''Landscape''))))
      (filter is_target
        (filter (\<lambda>r. \<forall>c \<in> set dropna_subset. notna (r c))
          (map (\<lambda>r c. if c \<in> set numeric_cols \<and> c \<in> set (columns (strip_columns df0))
                        then to_numeric (parse_number env) (r c) else r c)
               (rows (strip_columns df0)))))"
proof -
  let ?df = "strip_columns df0"
  from assms obtain done' df1 df2 sel where
    co: "coerce_columns (parse_number env) numeric_cols ?df = (done', Inr df1)" and
    dr: "dropna dropna_subset df1 = Inr df2" and
    fi: "filter_algorithm (is_object (column ?df ''Algorithm'')) df2 = Inr sel" and
    sl: "sla = add_landscape_desc sel"
    by (rule clean_InrE)
  note c1 = coerce_columns_Inr [OF co]
  from dr have sub: "set dropna_subset \<subseteq> set (columns df1)"
    and df2: "df2 = df1\<lparr>rows := filter (\<lambda>r. \<forall>c \<in> set dropna_subset. notna (r c)) (rows df1)\<rparr>"
    by (simp_all add: dropna_Inr)
  from fi have sel: "sel = df2\<lparr>rows := filter is_target (rows df2)\<rparr>"
    by (simp add: filter_algorithm_Inr)
  from sub have land: "''Landscape'' \<in> set (columns sel)"
    by (simp add: sel df2 dropna_subset_def)
  then have "rows sla =
      map (\<lambda>r. r(''Landscape_Desc'' := Str (landscape_desc (r ''Landscape'')))) (rows sel)"
    by (simp add: sl add_landscape_desc_def)
  also have "rows sel = filter is_target
      (filter (\<lambda>r. \<forall>c \<in> set dropna_subset. notna (r c)) (rows df1))"
    by (simp add: sel df2)
  finally have "rows sla =
      map (\<lambda>r. r(''Landscape_Desc'' := Str (landscape_desc (r ''Landscape''))))
        (filter is_target (filter (\<lambda>r. \<forall>c \<in> set dropna_subset. notna (r c)) (rows df1)))" .
  then show ?thesis
    unfolding conjunct2 [OF c1] .
qed

lemma count_list_append_single:
  "count_list (xs @ [y]) x = count_list xs x + (if x = y then 1 else 0)"
  by (induction xs) auto

lemma series_unique_Inr:
  "c \<in> set (columns df) \<Longrightarrow> \<not> duplicated df c \<Longrightarrow> series_unique df c = Inr (unique (column df c))"
  by (simp add: series_unique_def)

lemma clean_succeeds:
  assumes alg: "''Algorithm'' \<in> set (columns (strip_columns df0))"
    and dup: "\<forall>c \<in> set (''Algorithm'' # ''Landscape_Desc'' # numeric_cols).
                 \<not> duplicated (strip_columns df0) c"
    and sub: "set dropna_subset \<subseteq> set (columns (strip_columns df0))"
    and obj: "is_object (column (strip_columns df0) ''Algorithm'')"
  shows "\<exists>t sla. clean env df0 = (t, Inr sla)"
proof -
  let ?df = "strip_columns df0"
  from dup have "\<forall>c \<in> set numeric_cols. \<not> duplicated ?df c" by simp
  then obtain done' df1 where
    co: "coerce_columns (parse_number env) numeric_cols ?df = (done', Inr df1)"
    using coerce_columns_ok by blast
  from coerce_columns_Inr [OF co] have cols1: "columns df1 = columns ?df" by simp
  define df2 where
    "df2 = df1\<lparr>rows := filter (\<lambda>r. \<forall>c \<in> set dropna_subset. notna (r c)) (rows df1)\<rparr>"
  define sel where "sel = df2\<lparr>rows := filter is_target (rows df2)\<rparr>"
  define sla where "sla = add_landscape_desc sel"
  have dr: "dropna dropna_subset df1 = Inr df2"
    using sub by (simp add: dropna_Inr cols1 df2_def)
  have fi: "filter_algorithm (is_object (column ?df ''Algorithm'')) df2 = Inr sel"
    using obj by (simp add: filter_algorithm_Inr sel_def)
  have cols_sel: "columns sel = columns ?df"
    by (simp add: sel_def df2_def cols1)
  have chk: "check_algorithm ?df = ([Print UniqueAlgorithmsHeader,
      Print (Values (unique (column ?df ''Algorithm'')))], Inr ())"
    using alg dup by (simp add: check_algorithm_def series_unique_Inr)
  have conv: "convert_columns env ?df = (map ToNumeric done', Inr df1)"
    by (simp add: convert_columns_def co)
  have land: "''Landscape'' \<in> set (columns sel)"
    using sub by (simp add: cols_sel dropna_subset_def)
  have cols_sla: "columns sla =
      (if ''Landscape_Desc'' \<in> set (columns ?df) then columns ?df
       else columns ?df @ [''Landscape_Desc''])"
    using land by (simp add: sla_def add_landscape_desc_def set_column_def cols_sel)
  have pu: "print_unique sla c = ([Print (UniqueOf c (unique (column sla c)))], Inr ())"
    if "c \<in> set (columns sla)" and "\<not> duplicated ?df c" for c
  proof -
    from that(2) have "\<not> duplicated sla c"
      by (auto simp: duplicated_def cols_sla count_list_append_single)
    with that(1) show ?thesis
      by (simp add: print_unique_def series_unique_Inr)
  qed
  have in_sla: "''NumVMs'' \<in> set (columns sla)" "''NumHosts'' \<in> set (columns sla)"
    "''Landscape_Desc'' \<in> set (columns sla)"
    using sub by (auto simp: cols_sla dropna_subset_def)
  have nd: "\<not> duplicated ?df ''NumVMs''" "\<not> duplicated ?df ''NumHosts''"
    "\<not> duplicated ?df ''Landscape_Desc''"
    using dup by (simp_all add: numeric_cols_def)
  show ?thesis
    unfolding clean_def Let_def
    by (simp add: chk conv dr fi raising_def sla_def [symmetric]
          pu [OF in_sla(1) nd(1)] pu [OF in_sla(2) nd(2)] pu [OF in_sla(3) nd(3)])
qed


lemmas row_defs = table_of_def strip_columns_def strip_def isspace_def numeric_cols_def
  dropna_subset_def notna_def is_target_def str_strip_def target_algorithm_def to_numeric_def
  landscape_desc_def landscape_map_def is_object_def column_def duplicated_def

lemma messy_ok: "\<exists>t sla. clean env messy_table = (t, Inr sla)"
  by (rule clean_succeeds) (simp_all add: messy_table_def row_defs)

lemma messy_rows:
  assumes "clean env messy_table = (t, Inr sla)" and p: "parse_number env ''abc'' = None"
  shows "map (\<lambda>r. (r ''Algorithm'', r ''NumVMs'', r ''NumHosts'', r ''Landscape'',
                   r ''StdDev_Host_CPU_Util(%)'', r ''Landscape_Desc'')) (rows sla) =
     [(Str '' SLA-PSO'', Num 30, Num 5, Num 4, Num (5 / 2), Str ''Heterogeneous''),
      (Str ''SLA-PSO'', Num 30, Num 5, Num 7, Num 3, Str ''Unknown'')]"
  unfolding clean_rows_eq [OF assms(1)]
  by (simp add: messy_table_def row_defs p)

lemma six_rows_rows:
  assumes "clean env six_rows = (t, Inr sla)"
  shows "map (\<lambda>r. (r ''NumVMs'', r ''NumHosts'', r ''Landscape'',
                   r ''StdDev_Host_CPU_Util(%)'')) (rows sla) =
     [(Num 10, Num 5, Num 4, Num 1), (Num 10, Num 5, Num 4, Num 2), (Num 20, Num 5, Num 4, Num 3),
      (Num 20, Num 5, Num 4, Num 4), (Num 30, Num 5, Num 4, Num 5), (Num 30, Num 5, Num 4, Num 6)]"
  unfolding clean_rows_eq [OF assms]
  by (simp add: six_rows_def header5_def row_defs)

lemma sla_pso_df_Some: "sla_pso_df env df0 = Some sla \<longleftrightarrow> (\<exists>t. clean env df0 = (t, Inr sla))"
  by (cases "clean env df0") (auto simp: sla_pso_df_def split: sum.splits)

lemma mean_all_Num:
  assumes "\<forall>c \<in> set cs. \<exists>v. c = Num v" and "cs \<noteq> []"
  shows "mean cs = Num (sum_list (map num_value cs) / of_nat (length cs))"
proof -
  from assms(1) have "[x. Num x \<leftarrow> cs] = map num_value cs"
    by (induction cs) (auto simp: num_value_def)
  with assms(2) show ?thesis
    by (simp add: mean_def)
qed

lemma group_keys_set:
  "set (group_keys key d) = {k. Num k \<in> set (column d key)}"
proof -
  have "set [k. Num k \<leftarrow> cs] = {k. Num k \<in> set cs}" for cs :: "cell list"
    by (induction cs) (auto split: cell.splits)
  then show ?thesis by (simp add: group_keys_def)
qed

lemma groupby_mean_keys:
  assumes "\<forall>r \<in> set (rows d). \<exists>k. r key = Num k"
  shows "distinct (map fst (groupby_mean key val d)) \<and>
         set (map fst (groupby_mean key val d)) = set (column d key)"
proof -
  have fst_eq: "map fst (groupby_mean key val d) = map Num (group_keys key d)"
    by (simp add: groupby_mean_def comp_def)
  have "distinct (map Num (group_keys key d))"
    by (simp add: distinct_map group_keys_def inj_on_def)
  moreover have "Num ` set (group_keys key d) = set (column d key)"
  proof
    show "Num ` set (group_keys key d) \<subseteq> set (column d key)"
      by (auto simp: group_keys_set)
    show "set (column d key) \<subseteq> Num ` set (group_keys key d)"
    proof
      fix c assume c: "c \<in> set (column d key)"
      with assms obtain k where "c = Num k" by (auto simp: column_def)
      with c show "c \<in> Num ` set (group_keys key d)" by (simp add: group_keys_set)
    qed
  qed
  ultimately show ?thesis by (simp add: fst_eq)
qed

lemma concat_map_if:
  "concat (map (\<lambda>r. if P r then [f r] else []) xs) = map f (filter P xs)"
  by (induction xs) simp_all

lemma groupby_mean_value:
  assumes vals: "\<forall>r \<in> set (rows d). \<exists>v. r val = Num v"
    and mem: "(k, m) \<in> set (groupby_mean key val d)"
  shows "m = Num (sum_list (map (\<lambda>r. num_value (r val)) [r \<leftarrow> rows d. r key = k])
                  / of_nat (length [r \<leftarrow> rows d. r key = k]))"
proof -
  from mem obtain x where x: "x \<in> set (group_keys key d)" and k: "k = Num x"
    and m: "m = mean [r val. r \<leftarrow> rows d, r key = Num x]"
    by (auto simp: groupby_mean_def)
  let ?g = "[r \<leftarrow> rows d. r key = k]"
  have eq: "[r val. r \<leftarrow> rows d, r key = Num x] = map (\<lambda>r. r val) ?g"
    by (simp add: concat_map_if k)
  from x obtain r where "r \<in> set (rows d)" "r key = k"
    by (auto simp: group_keys_set column_def k)
  then have ne: "map (\<lambda>r. r val) ?g \<noteq> []"
    by (auto simp: filter_empty_conv)
  from vals have "\<forall>c \<in> set (map (\<lambda>r. r val) ?g). \<exists>v. c = Num v" by auto
  from mean_all_Num [OF this ne] show ?thesis
    by (simp add: m eq comp_def)
qed


lemma strip_padded:
  assumes "t \<noteq> []" and "\<not> isspace (hd t)" and "\<not> isspace (last t)"
    and "\<forall>c \<in> set l. isspace c" and "\<forall>c \<in> set r. isspace c"
  shows "strip (l @ t @ r) = t"
proof -
  from assms(1) obtain a u where t: "t = a # u" by (cases t) auto
  with assms(2) have a: "\<not> isspace a" by simp
  from assms(4) a have front: "dropWhile isspace (l @ t @ r) = t @ r"
    by (simp add: t dropWhile_append3)
  from assms(1) obtain v b where t': "t = v @ [b]" by (cases t rule: rev_cases) auto
  with assms(3) have b: "\<not> isspace b" by simp
  from assms(5) b have "dropWhile isspace (rev r @ b # rev v) = b # rev v"
    by (simp add: dropWhile_append3)
  then have "dropWhile isspace (rev (t @ r)) = rev t"
    by (simp add: t')
  with front show ?thesis by (simp add: strip_def)
qed

lemma strip_decompose:
  "\<exists>l r. s = l @ strip s @ r \<and> (\<forall>c \<in> set l. isspace c) \<and> (\<forall>c \<in> set r. isspace c)"
proof -
  let ?m = "dropWhile isspace s"
  let ?l = "takeWhile isspace s"
  let ?r = "rev (takeWhile isspace (rev ?m))"
  have "rev (takeWhile isspace (rev ?m) @ dropWhile isspace (rev ?m)) = ?m"
    by (simp only: takeWhile_dropWhile_id rev_rev_ident)
  then have "?m = strip s @ ?r"
    by (simp only: rev_append strip_def)
  then have "s = ?l @ strip s @ ?r"
    by (metis takeWhile_dropWhile_id)
  moreover have "\<forall>c \<in> set ?l. isspace c" by (auto dest: set_takeWhileD)
  moreover have "\<forall>c \<in> set ?r. isspace c" by (auto dest: set_takeWhileD)
  ultimately show ?thesis by blast
qed

lemma strip_target_iff:
  "strip s = target_algorithm \<longleftrightarrow>
     (\<exists>l r. s = l @ target_algorithm @ r \<and> (\<forall>c \<in> set l. isspace c) \<and> (\<forall>c \<in> set r. isspace c))"
proof
  assume "strip s = target_algorithm"
  with strip_decompose [of s] show "\<exists>l r. s = l @ target_algorithm @ r \<and>
      (\<forall>c \<in> set l. isspace c) \<and> (\<forall>c \<in> set r. isspace c)"
    by simp
next
  assume "\<exists>l r. s = l @ target_algorithm @ r \<and>
      (\<forall>c \<in> set l. isspace c) \<and> (\<forall>c \<in> set r. isspace c)"
  then obtain l r where s: "s = l @ target_algorithm @ r"
    and l: "\<forall>c \<in> set l. isspace c" and r: "\<forall>c \<in> set r. isspace c"
    by blast
  have "strip (l @ target_algorithm @ r) = target_algorithm"
    by (rule strip_padded [OF _ _ _ l r]) (simp_all add: target_algorithm_def isspace_def)
  with s show "strip s = target_algorithm" by simp
qed

subsection \<open>The algorithm filter\<close>

text \<open>
  C3. The algorithm filter keeps exactly the rows whose Algorithm is a text that,
  trimmed, is \<^verbatim>\<open>SLA-PSO\<close>; these are the texts made of \<^verbatim>\<open>SLA-PSO\<close> with white space
  before and after it, so \<^verbatim>\<open>"SLA-PSO "\<close> and \<^verbatim>\<open>" SLA-PSO"\<close> are kept as \<^verbatim>\<open>"SLA-PSO"\<close> is.
\<close>

theorem algorithm_filter_ignores_padding:
  assumes "filter_algorithm obj df = Inr sla"
  shows "rows sla = filter (\<lambda>r. \<exists>s. r ''Algorithm'' = Str s \<and> strip s = ''SLA-PSO'') (rows df) \<and>
    (\<forall>s. strip s = ''SLA-PSO'' \<longleftrightarrow>
       (\<exists>l r. s = l @ ''SLA-PSO'' @ r \<and> (\<forall>c \<in> set l. isspace c) \<and> (\<forall>c \<in> set r. isspace c))) \<and>
    (\<forall>r \<in> set (rows df).
       r ''Algorithm'' \<in> {Str ''SLA-PSO '', Str '' SLA-PSO'', Str ''SLA-PSO''} \<longrightarrow> r \<in> set (rows sla))"
proof -
  from assms have rows: "rows sla = filter is_target (rows df)"
    by (simp add: filter_algorithm_Inr)
  have tgt: "is_target = (\<lambda>r. \<exists>s. r ''Algorithm'' = Str s \<and> strip s = ''SLA-PSO'')"
    by (rule ext) (simp add: is_target_iff target_algorithm_def)
  have pad: "strip ''SLA-PSO '' = ''SLA-PSO''" "strip '' SLA-PSO'' = ''SLA-PSO''"
    "strip ''SLA-PSO'' = ''SLA-PSO''"
    by (simp_all add: strip_def isspace_def)
  have "rows sla = filter (\<lambda>r. \<exists>s. r ''Algorithm'' = Str s \<and> strip s = ''SLA-PSO'') (rows df)"
    by (simp add: rows tgt)
  moreover have "\<forall>s. strip s = ''SLA-PSO'' \<longleftrightarrow>
       (\<exists>l r. s = l @ ''SLA-PSO'' @ r \<and> (\<forall>c \<in> set l. isspace c) \<and> (\<forall>c \<in> set r. isspace c))"
    using strip_target_iff by (simp add: target_algorithm_def)
  moreover have "\<forall>r \<in> set (rows df).
       r ''Algorithm'' \<in> {Str ''SLA-PSO '', Str '' SLA-PSO'', Str ''SLA-PSO''} \<longrightarrow> r \<in> set (rows sla)"
    using pad by (auto simp: rows is_target_iff target_algorithm_def)
  ultimately show ?thesis by blast
qed

theorem algorithm_filter_ignores_padding_witness:
  "(case filter_algorithm True padded_names of Inr sla \<Rightarrow> column sla ''Algorithm'' | Inl e \<Rightarrow> [])
     = [Str ''SLA-PSO '', Str '' SLA-PSO'', Str ''SLA-PSO'']"
proof -
  let ?sla = "padded_names\<lparr>rows := filter is_target (rows padded_names)\<rparr>"
  have f: "filter_algorithm True padded_names = Inr ?sla"
    by (simp add: filter_algorithm_def)
  from algorithm_filter_ignores_padding [OF f]
  have "rows ?sla =
      filter (\<lambda>r. \<exists>s. r ''Algorithm'' = Str s \<and> strip s = ''SLA-PSO'') (rows padded_names)"
    by (rule conjunct1)
  then have "column ?sla ''Algorithm'' = [Str ''SLA-PSO '', Str '' SLA-PSO'', Str ''SLA-PSO'']"
    unfolding column_def
    by (simp add: padded_names_def table_of_def strip_def isspace_def)
  with f show ?thesis by simp
qed

lemma sla_pso_df_example:
  "\<exists>sla. sla_pso_df env messy_table = Some sla"
  using messy_ok [of env] by (auto simp: sla_pso_df_Some)

subsection \<open>The rows of the cleaned table\<close>

text \<open>
  C2, as amended. In a run that gets past the cleaning stage, every row left has a text
  as Algorithm that, trimmed, is \<^verbatim>\<open>SLA-PSO\<close>, and numbers as NumVMs, NumHosts,
  Landscape and StdDev_Host_CPU_Util(%); none of the five is missing.
\<close>

theorem cleaned_rows_invariant:
  assumes "sla_pso_df env df0 = Some sla" and "r \<in> set (rows sla)"
  shows "(\<exists>s. r ''Algorithm'' = Str s \<and> strip s = ''SLA-PSO'') \<and>
         (\<exists>k. r ''NumVMs'' = Num k) \<and> (\<exists>k. r ''NumHosts'' = Num k) \<and>
         (\<exists>k. r ''Landscape'' = Num k) \<and> (\<exists>k. r ''StdDev_Host_CPU_Util(%)'' = Num k) \<and>
         notna (r ''Algorithm'') \<and> notna (r ''NumVMs'') \<and> notna (r ''NumHosts'') \<and>
         notna (r ''Landscape'') \<and> notna (r ''StdDev_Host_CPU_Util(%)'')"
proof -
  from assms(1) obtain t where "clean env df0 = (t, Inr sla)"
    by (auto simp: sla_pso_df_Some)
  from clean_rows [OF this assms(2)] show ?thesis
    by (auto simp: notna_def target_algorithm_def)
qed

theorem cleaned_rows_invariant_witness:
  "map_option (\<lambda>sla. map (\<lambda>r. (r ''Algorithm'', r ''NumVMs'', r ''NumHosts'', r ''Landscape'',
                                 r ''StdDev_Host_CPU_Util(%)'')) (rows sla))
     (sla_pso_df (example_env (Table messy_table)) messy_table) =
   Some [(Str '' SLA-PSO'', Num 30, Num 5, Num 4, Num (5 / 2)),
         (Str ''SLA-PSO'', Num 30, Num 5, Num 7, Num 3)] \<and>
   strip '' SLA-PSO'' = ''SLA-PSO'' \<and> notna (Str '' SLA-PSO'') \<and> notna (Num 30)"
proof -
  let ?e = "example_env (Table messy_table)"
  obtain sla where s: "sla_pso_df ?e messy_table = Some sla"
    using sla_pso_df_example by blast
  then obtain t where c: "clean ?e messy_table = (t, Inr sla)"
    by (auto simp: sla_pso_df_Some)
  have p: "parse_number ?e ''abc'' = None" by (simp add: example_env_def)
  note rs = messy_rows [OF c p]
  then obtain r1 r2 where rows: "rows sla = [r1, r2]" and
    r1: "r1 ''Algorithm'' = Str '' SLA-PSO''"
    by (auto simp: map_eq_Cons_conv)
  from rows have "r1 \<in> set (rows sla)" by simp
  from cleaned_rows_invariant [OF s this] r1
  have "strip '' SLA-PSO'' = ''SLA-PSO'' \<and> notna (Str '' SLA-PSO'')" by auto
  moreover have "notna (Num 30)" by (simp add: notna_def)
  moreover from rs have "map (\<lambda>r. (r ''Algorithm'', r ''NumVMs'', r ''NumHosts'', r ''Landscape'',
      r ''StdDev_Host_CPU_Util(%)'')) (rows sla) =
      [(Str '' SLA-PSO'', Num 30, Num 5, Num 4, Num (5 / 2)),
       (Str ''SLA-PSO'', Num 30, Num 5, Num 7, Num 3)]"
    by (auto simp: map_eq_Cons_conv)
  ultimately show ?thesis by (simp add: s)
qed

theorem algorithm_not_literal_counterexample:
  "map_option (\<lambda>sla. column sla ''Algorithm'')
     (sla_pso_df (example_env (Table messy_table)) messy_table) =
   Some [Str '' SLA-PSO'', Str ''SLA-PSO''] \<and> Str '' SLA-PSO'' \<noteq> Str target_algorithm"
proof -
  let ?e = "example_env (Table messy_table)"
  obtain sla where s: "sla_pso_df ?e messy_table = Some sla"
    using sla_pso_df_example by blast
  then obtain t where c: "clean ?e messy_table = (t, Inr sla)"
    by (auto simp: sla_pso_df_Some)
  have p: "parse_number ?e ''abc'' = None" by (simp add: example_env_def)
  from messy_rows [OF c p] have "column sla ''Algorithm'' = [Str '' SLA-PSO'', Str ''SLA-PSO'']"
    by (auto simp: column_def map_eq_Cons_conv)
  then show ?thesis by (simp add: s target_algorithm_def)
qed

subsection \<open>The landscape label\<close>

text \<open>
  C4. In the cleaned table the landscape code of a row is a number, and the label of the
  row is the one the map gives the codes 1, 2, 3 and 4, and \<^verbatim>\<open>Unknown\<close> for any other.
\<close>

theorem landscape_label:
  assumes "sla_pso_df env df0 = Some sla" and "r \<in> set (rows sla)"
  shows "\<exists>k. r ''Landscape'' = Num k \<and>
     r ''Landscape_Desc'' =
       Str (if k = 1 then ''Homogeneous Small''
            else if k = 2 then ''Homogeneous Medium''
            else if k = 3 then ''Homogeneous Large''
            else if k = 4 then ''Heterogeneous''
            else ''Unknown'')"
proof -
  from assms(1) obtain t where "clean env df0 = (t, Inr sla)"
    by (auto simp: sla_pso_df_Some)
  from clean_rows [OF this assms(2)] obtain k where
    "r ''Landscape'' = Num k" "r ''Landscape_Desc'' = Str (landscape_desc (Num k))"
    by auto
  then show ?thesis
    by (simp add: landscape_desc_def landscape_map_def)
qed

theorem landscape_label_witness:
  "map_option (\<lambda>sla. map (\<lambda>r. (r ''Landscape'', r ''Landscape_Desc'')) (rows sla))
     (sla_pso_df (example_env (Table messy_table)) messy_table) =
   Some [(Num 4, Str ''Heterogeneous''), (Num 7, Str ''Unknown'')]"
proof -
  let ?e = "example_env (Table messy_table)"
  obtain sla where s: "sla_pso_df ?e messy_table = Some sla"
    using sla_pso_df_example by blast
  then obtain t where c: "clean ?e messy_table = (t, Inr sla)"
    by (auto simp: sla_pso_df_Some)
  have p: "parse_number ?e ''abc'' = None" by (simp add: example_env_def)
  from messy_rows [OF c p] obtain r1 r2 where rows: "rows sla = [r1, r2]" and
    l: "r1 ''Landscape'' = Num 4" "r2 ''Landscape'' = Num 7"
    by (auto simp: map_eq_Cons_conv)
  from rows have "r1 \<in> set (rows sla)" "r2 \<in> set (rows sla)" by simp_all
  from landscape_label [OF s this(1)] landscape_label [OF s this(2)] l
  have "r1 ''Landscape_Desc'' = Str ''Heterogeneous''" "r2 ''Landscape_Desc'' = Str ''Unknown''"
    by auto
  with rows l show ?thesis by (simp add: s)
qed

lemma six_rows_ok: "\<exists>sla. sla_pso_df env six_rows = Some sla"
proof -
  have "\<exists>t sla. clean env six_rows = (t, Inr sla)"
    by (rule clean_succeeds) (simp_all add: six_rows_def header5_def row_defs)
  then show ?thesis by (auto simp: sla_pso_df_Some)
qed

lemma select_rows_all:
  "\<forall>r \<in> set (rows d). r c1 = Num v1 \<and> r c2 = Num v2 \<Longrightarrow> select_rows c1 v1 c2 v2 d = d"
  by (simp add: select_rows_def)

lemma six_rows_grouped:
  assumes "sla_pso_df env six_rows = Some sla"
  shows "vm_scaling_grouped sla =
    [(Num 10, Num (3 / 2)), (Num 20, Num (7 / 2)), (Num 30, Num (11 / 2))]"
proof -
  from assms obtain t where c: "clean env six_rows = (t, Inr sla)"
    by (auto simp: sla_pso_df_Some)
  from six_rows_rows [OF c] obtain r1 r2 r3 r4 r5 r6 where
    rows: "rows sla = [r1, r2, r3, r4, r5, r6]" and
    vals: "r1 ''NumVMs'' = Num 10" "r1 ''NumHosts'' = Num 5" "r1 ''Landscape'' = Num 4"
          "r1 ''StdDev_Host_CPU_Util(%)'' = Num 1"
          "r2 ''NumVMs'' = Num 10" "r2 ''NumHosts'' = Num 5" "r2 ''Landscape'' = Num 4"
          "r2 ''StdDev_Host_CPU_Util(%)'' = Num 2"
          "r3 ''NumVMs'' = Num 20" "r3 ''NumHosts'' = Num 5" "r3 ''Landscape'' = Num 4"
          "r3 ''StdDev_Host_CPU_Util(%)'' = Num 3"
          "r4 ''NumVMs'' = Num 20" "r4 ''NumHosts'' = Num 5" "r4 ''Landscape'' = Num 4"
          "r4 ''StdDev_Host_CPU_Util(%)'' = Num 4"
          "r5 ''NumVMs'' = Num 30" "r5 ''NumHosts'' = Num 5" "r5 ''Landscape'' = Num 4"
          "r5 ''StdDev_Host_CPU_Util(%)'' = Num 5"
          "r6 ''NumVMs'' = Num 30" "r6 ''NumHosts'' = Num 5" "r6 ''Landscape'' = Num 4"
          "r6 ''StdDev_Host_CPU_Util(%)'' = Num 6"
    by (auto simp: map_eq_Cons_conv)
  show ?thesis
    by (simp add: vm_scaling_grouped_def vm_scaling_data_def select_rows_def groupby_mean_def
          group_keys_def column_def mean_def rows vals)
qed

subsection \<open>The VM-scaling aggregate\<close>

text \<open>
  C1. When every row of the cleaned table has NumHosts 5 and Landscape 4, the slice of
  the VM-scaling analysis is the whole table, and its aggregate has one row for each
  distinct NumVMs, with the sum of StdDev_Host_CPU_Util(%) over the rows of that NumVMs
  divided by their number. On the six-row table it is (10, 1.5), (20, 3.5), (30, 5.5).
\<close>

theorem vm_scaling_aggregate:
  "(\<forall>env df0 sla.
      sla_pso_df env df0 = Some sla \<longrightarrow>
      (\<forall>r \<in> set (rows sla). r ''NumHosts'' = Num 5 \<and> r ''Landscape'' = Num 4) \<longrightarrow>
        vm_scaling_data sla = sla \<and>
        distinct (map fst (vm_scaling_grouped sla)) \<and>
        set (map fst (vm_scaling_grouped sla)) = set (column sla ''NumVMs'') \<and>
        (\<forall>k m. (k, m) \<in> set (vm_scaling_grouped sla) \<longrightarrow>
           m = Num (sum_list (map (\<lambda>r. num_value (r ''StdDev_Host_CPU_Util(%)''))
                                 [r \<leftarrow> rows sla. r ''NumVMs'' = k])
                    / of_nat (length [r \<leftarrow> rows sla. r ''NumVMs'' = k])))) \<and>
   map_option vm_scaling_grouped (sla_pso_df (example_env (Table six_rows)) six_rows) =
     Some [(Num 10, Num (3 / 2)), (Num 20, Num (7 / 2)), (Num 30, Num (11 / 2))]"
proof (intro conjI allI impI)
  fix env df0 sla
  assume s: "sla_pso_df env df0 = Some sla"
    and all: "\<forall>r \<in> set (rows sla). r ''NumHosts'' = Num 5 \<and> r ''Landscape'' = Num 4"
  from s obtain t where c: "clean env df0 = (t, Inr sla)"
    by (auto simp: sla_pso_df_Some)
  from all show whole: "vm_scaling_data sla = sla"
    unfolding vm_scaling_data_def by (rule select_rows_all)
  have keys: "\<forall>r \<in> set (rows sla). \<exists>k. r ''NumVMs'' = Num k"
    and vals: "\<forall>r \<in> set (rows sla). \<exists>v. r ''StdDev_Host_CPU_Util(%)'' = Num v"
    using clean_rows [OF c] by blast+
  from groupby_mean_keys [OF keys]
  show "distinct (map fst (vm_scaling_grouped sla))"
    and "set (map fst (vm_scaling_grouped sla)) = set (column sla ''NumVMs'')"
    by (simp_all add: vm_scaling_grouped_def whole)
  fix k m
  assume "(k, m) \<in> set (vm_scaling_grouped sla)"
  then have "(k, m) \<in> set (groupby_mean ''NumVMs'' ''StdDev_Host_CPU_Util(%)'' sla)"
    by (simp add: vm_scaling_grouped_def whole)
  from groupby_mean_value [OF vals this]
  show "m = Num (sum_list (map (\<lambda>r. num_value (r ''StdDev_Host_CPU_Util(%)''))
                                 [r \<leftarrow> rows sla. r ''NumVMs'' = k])
                    / of_nat (length [r \<leftarrow> rows sla. r ''NumVMs'' = k]))" .
next
  obtain sla where s: "sla_pso_df (example_env (Table six_rows)) six_rows = Some sla"
    using six_rows_ok by blast
  from six_rows_grouped [OF s]
  show "map_option vm_scaling_grouped (sla_pso_df (example_env (Table six_rows)) six_rows) =
     Some [(Num 10, Num (3 / 2)), (Num 20, Num (7 / 2)), (Num 30, Num (11 / 2))]"
    by (simp add: s)
qed

theorem vm_scaling_aggregate_witness:
  "map_option (\<lambda>sla. map (\<lambda>r. (r ''NumHosts'', r ''Landscape'')) (rows sla))
     (sla_pso_df (example_env (Table six_rows)) six_rows) =
     Some [(Num 5, Num 4), (Num 5, Num 4), (Num 5, Num 4), (Num 5, Num 4), (Num 5, Num 4),
           (Num 5, Num 4)] \<and>
   map_option (\<lambda>sla. (vm_scaling_data sla = sla, distinct (map fst (vm_scaling_grouped sla)),
                       set (map fst (vm_scaling_grouped sla)) = set (column sla ''NumVMs'')))
     (sla_pso_df (example_env (Table six_rows)) six_rows) = Some (True, True, True) \<and>
   map_option (\<lambda>sla. map fst (vm_scaling_grouped sla))
     (sla_pso_df (example_env (Table six_rows)) six_rows) = Some [Num 10, Num 20, Num 30]"
proof -
  let ?e = "example_env (Table six_rows)"
  obtain sla where s: "sla_pso_df ?e six_rows = Some sla"
    using six_rows_ok by blast
  then obtain t where c: "clean ?e six_rows = (t, Inr sla)"
    by (auto simp: sla_pso_df_Some)
  from six_rows_rows [OF c]
  have hl: "map (\<lambda>r. (r ''NumHosts'', r ''Landscape'')) (rows sla) =
      [(Num 5, Num 4), (Num 5, Num 4), (Num 5, Num 4), (Num 5, Num 4), (Num 5, Num 4),
       (Num 5, Num 4)]"
    by (auto simp: map_eq_Cons_conv)
  then have all: "\<forall>r \<in> set (rows sla). r ''NumHosts'' = Num 5 \<and> r ''Landscape'' = Num 4"
    by (auto simp: map_eq_Cons_conv)
  from vm_scaling_aggregate s all
  have a: "(vm_scaling_data sla = sla, distinct (map fst (vm_scaling_grouped sla)),
      set (map fst (vm_scaling_grouped sla)) = set (column sla ''NumVMs'')) = (True, True, True)"
    by blast
  from vm_scaling_aggregate s
  have b: "map fst (vm_scaling_grouped sla) = [Num 10, Num 20, Num 30]"
    by simp
  show ?thesis
    unfolding s option.map by (intro conjI; (rule arg_cong [where f = Some])?) (rule hl a b)+
qed

lemma paths:
  "vm_plot_path = ''sla_pso_plots/sla_pso_vm_scaling_stddev_cpu_util_Avg_StdDev_Host_CPU_Util_Pct_line.png''"
  "host_plot_path = ''sla_pso_plots/sla_pso_host_scaling_stddev_cpu_util_Avg_StdDev_Host_CPU_Util_Pct_line.png''"
  "bar_plot_path = ''sla_pso_plots/sla_pso_landscape_stddev_cpu_util_StdDev_Host_CPU_Utilpct_bar.png''"
  "curve_plot_path = ''sla_pso_plots/sla_pso_landscape_stddev_cpu_util_curve_StdDev_Host_CPU_Utilpct_line.png''"
  "box_plot_path = ''sla_pso_plots/sla_pso_landscape_stddev_cpu_util_boxplot_StdDev_Host_CPU_Utilpct_boxplot.png''"
  by (simp_all add: vm_plot_path_def host_plot_path_def bar_plot_path_def curve_plot_path_def
        box_plot_path_def plot_path_def replace_char_def OUTPUT_DIR_def)

lemma paths_distinct:
  "distinct [vm_plot_path, host_plot_path, bar_plot_path, curve_plot_path, box_plot_path]"
  by (simp add: paths)

lemma and_then_snd_Inl: "snd m = Inl out \<Longrightarrow> and_then m f = (fst m, Inl out)"
  by (cases m) simp

lemma and_then_snd_Inr: "snd m = Inr a \<Longrightarrow> and_then m f = (fst m @ fst (f a), snd (f a))"
  by (cases m) simp

lemma calls_of_append [simp]: "calls_of (s @ t) = calls_of s @ calls_of t"
  by (simp add: calls_of_def)

lemma files_of_append [simp]: "files_of (s @ t) = files_of s @ files_of t"
  by (simp add: files_of_def)

lemma calls_of_simps [simp]:
  "calls_of [] = []"
  "calls_of (PlotCall ch p d # t) = p # calls_of t"
  "calls_of (SaveFig p # t) = calls_of t"
  "calls_of (Print m # t) = calls_of t"
  "calls_of (ToNumeric c # t) = calls_of t"
  "calls_of (DropNa # t) = calls_of t"
  "calls_of (FilterAlgorithm # t) = calls_of t"
  "calls_of (MakeDirs # t) = calls_of t"
  "calls_of (ReadCsv # t) = calls_of t"
  by (simp_all add: calls_of_def)

lemma files_of_simps [simp]:
  "files_of [] = []"
  "files_of (PlotCall ch p d # t) = files_of t"
  "files_of (SaveFig p # t) = p # files_of t"
  "files_of (Print m # t) = files_of t"
  "files_of (ToNumeric c # t) = files_of t"
  "files_of (DropNa # t) = files_of t"
  "files_of (FilterAlgorithm # t) = files_of t"
  "files_of (MakeDirs # t) = files_of t"
  "files_of (ReadCsv # t) = files_of t"
  by (simp_all add: files_of_def)

lemma calls_of_ToNumeric [simp]: "calls_of (map ToNumeric cs) = []"
  by (induction cs) simp_all

lemma files_of_ToNumeric [simp]: "files_of (map ToNumeric cs) = []"
  by (induction cs) simp_all

lemma plot_free_and_then:
  assumes "plot_free m" and "\<And>a. plot_free (f a)"
  shows "plot_free (and_then m f)"
proof (cases "snd m")
  case (Inl out)
  with assms(1) show ?thesis by (simp add: and_then_snd_Inl plot_free_def)
next
  case (Inr a)
  with assms(1) assms(2) [of a] show ?thesis by (simp add: and_then_snd_Inr plot_free_def)
qed

lemma no_exit_and_then:
  assumes "no_exit m" and "\<And>a. no_exit (f a)"
  shows "no_exit (and_then m f)"
proof (cases "snd m")
  case (Inl out)
  with assms(1) show ?thesis by (simp add: and_then_snd_Inl no_exit_def)
next
  case (Inr a)
  with assms(2) [of a] show ?thesis by (simp add: and_then_snd_Inr no_exit_def)
qed



lemma plot_single_no_exit: "no_exit (plot_single env ch d y pre)"
  by (simp add: no_exit_def plot_single_def Let_def)



lemma columns_strip_columns [simp]: "columns (strip_columns df) = map strip (columns df)"
  by (simp add: strip_columns_def)

lemma plot_free_simple [simp]:
  "plot_free ([], r)" "plot_free ([Print m], r)" "plot_free ([Print m, Print m'], r)"
  "plot_free ([DropNa], r)" "plot_free ([FilterAlgorithm], r)"
  by (simp_all add: plot_free_def)

lemma plot_free_raising: "plot_free (es, Inr ()) \<Longrightarrow> plot_free (raising es res)"
  by (cases res) (simp_all add: raising_def plot_free_def)

lemma no_exit_raising: "no_exit (raising es res)"
  by (cases res) (simp_all add: raising_def no_exit_def)

lemma plot_free_print_unique: "plot_free (print_unique d c)"
  by (simp add: print_unique_def split: sum.splits)

lemma no_exit_print_unique: "no_exit (print_unique d c)"
  by (simp add: print_unique_def no_exit_def split: sum.splits)

lemma plot_free_check_algorithm: "plot_free (check_algorithm df)"
  unfolding check_algorithm_def
  by (rule plot_free_and_then) (simp_all split: sum.splits)

lemma plot_free_convert_columns: "plot_free (convert_columns env df)"
  by (simp add: convert_columns_def plot_free_def split: prod.splits)

lemma no_exit_convert_columns: "no_exit (convert_columns env df)"
  by (simp add: convert_columns_def no_exit_def split: prod.splits sum.splits)

lemma plot_free_clean: "plot_free (clean env df0)"
  unfolding clean_def Let_def
  by (intro plot_free_and_then plot_free_check_algorithm plot_free_convert_columns
        plot_free_raising plot_free_print_unique plot_free_simple)

lemma check_algorithm_missing:
  "''Algorithm'' \<notin> set (columns df) \<Longrightarrow>
     check_algorithm df = ([Print UniqueAlgorithmsHeader, Print AlgorithmColumnMissing], Inl Exited)"
  by (simp add: check_algorithm_def)

lemma check_algorithm_present:
  "''Algorithm'' \<in> set (columns df) \<Longrightarrow> no_exit (check_algorithm df)"
  by (simp add: check_algorithm_def no_exit_def split: sum.splits)

lemma clean_missing_algorithm:
  "''Algorithm'' \<notin> set (map strip (columns df0)) \<Longrightarrow>
     clean env df0 = ([Print UniqueAlgorithmsHeader, Print AlgorithmColumnMissing], Inl Exited)"
  by (simp add: clean_def Let_def check_algorithm_missing)

lemma no_exit_simple [simp]: "no_exit (t, Inr a)" "no_exit (t, Inl (Uncaught e))"
  by (simp_all add: no_exit_def)

lemma clean_present_no_exit:
  "''Algorithm'' \<in> set (map strip (columns df0)) \<Longrightarrow> no_exit (clean env df0)"
  unfolding clean_def Let_def
  by (intro no_exit_and_then check_algorithm_present no_exit_convert_columns no_exit_raising
        no_exit_print_unique no_exit_simple) simp

lemma clean_Exited_iff:
  "snd (clean env df0) = Inl Exited \<longleftrightarrow> ''Algorithm'' \<notin> set (map strip (columns df0))"
  using clean_present_no_exit [of df0 env] clean_missing_algorithm [of df0 env]
  by (auto simp: no_exit_def)

lemma no_exit_plot_single: "no_exit (plot_single env ch d y pre)"
  by (simp add: no_exit_def plot_single_def Let_def)

lemma no_exit_vm_scaling: "no_exit (vm_scaling env sla)"
  by (simp add: vm_scaling_def no_exit_plot_single)

lemma no_exit_host_scaling: "no_exit (host_scaling env sla)"
  by (simp add: host_scaling_def no_exit_plot_single)

lemma no_exit_landscape_variation: "no_exit (landscape_variation env sla)"
  unfolding landscape_variation_def Let_def
  by (auto intro!: no_exit_and_then no_exit_plot_single)

lemma no_exit_analyse: "no_exit (analyse env sla)"
  unfolding analyse_def
  by (intro no_exit_and_then no_exit_vm_scaling no_exit_host_scaling
        no_exit_landscape_variation no_exit_simple)







lemma run_fst: "fst (run env) = fst (script env)"
  by (simp add: run_def split: prod.splits sum.splits)

lemma run_snd:
  "snd (run env) = (case snd (script env) of Inl out \<Rightarrow> out | Inr u \<Rightarrow> Completed)"
  by (simp add: run_def split: prod.splits sum.splits)

lemma ensure_output_dir_eq:
  "ensure_output_dir env =
     ((if dir_exists env then [] else [MakeDirs, Print CreatedOutputDir]), Inr ())"
  by (simp add: ensure_output_dir_def)

lemma script_not_found:
  "read_csv env = FileNotFoundError \<Longrightarrow>
     script env = ((if dir_exists env then [] else [MakeDirs, Print CreatedOutputDir]) @
                   [ReadCsv, Print FileNotFoundMsg], Inl Exited)"
  by (simp add: script_def ensure_output_dir_eq load_data_def)

lemma script_other_error:
  "read_csv env = OtherError e \<Longrightarrow>
     script env = ((if dir_exists env then [] else [MakeDirs, Print CreatedOutputDir]) @
                   [ReadCsv, Print (LoadFailedMsg e)], Inl Exited)"
  by (simp add: script_def ensure_output_dir_eq load_data_def)

lemma script_table:
  "read_csv env = Table df0 \<Longrightarrow>
     script env = ((if dir_exists env then [] else [MakeDirs, Print CreatedOutputDir]) @
                   [ReadCsv, Print LoadedOk] @ fst (and_then (clean env df0) (analyse env)),
                   snd (and_then (clean env df0) (analyse env)))"
  by (simp add: script_def ensure_output_dir_eq load_data_def)

lemma script_Exited_iff:
  "snd (script env) = Inl Exited \<longleftrightarrow>
     read_csv env = FileNotFoundError \<or> (\<exists>e. read_csv env = OtherError e) \<or>
     (\<exists>df0. read_csv env = Table df0 \<and> ''Algorithm'' \<notin> set (map strip (columns df0)))"
proof (cases "read_csv env")
  case FileNotFoundError
  then show ?thesis by (simp add: script_not_found)
next
  case (OtherError e)
  then show ?thesis by (simp add: script_other_error)
next
  case (Table df0)
  have "snd (and_then (clean env df0) (analyse env)) = Inl Exited \<longleftrightarrow>
      ''Algorithm'' \<notin> set (map strip (columns df0))"
  proof (cases "snd (clean env df0)")
    case (Inl out)
    then show ?thesis
      using clean_Exited_iff [of env df0] by (simp add: and_then_snd_Inl)
  next
    case (Inr sla)
    then show ?thesis
      using clean_Exited_iff [of env df0] no_exit_analyse [of env sla]
      by (simp add: and_then_snd_Inr no_exit_def)
  qed
  with Table show ?thesis by (simp add: script_table)
qed

lemma trace_eq: "trace env = fst (script env)"
  by (simp add: trace_def run_fst)

subsection \<open>A header without Algorithm\<close>

text \<open>
  C5. When the trimmed header has no \<^verbatim>\<open>Algorithm\<close>, the run prints the diagnostic of
  line 36 and calls \<^verbatim>\<open>exit()\<close>: these are its last events, and no column is converted,
  no row dropped or selected, no chart drawn and no file written.
\<close>

theorem missing_algorithm_stops_early:
  assumes "read_csv env = Table df0" and "''Algorithm'' \<notin> set (map strip (columns df0))"
  shows "run env =
      ((if dir_exists env then [] else [MakeDirs, Print CreatedOutputDir]) @
       [ReadCsv, Print LoadedOk, Print UniqueAlgorithmsHeader, Print AlgorithmColumnMissing],
       Exited) \<and>
    (\<forall>c. ToNumeric c \<notin> set (trace env)) \<and> DropNa \<notin> set (trace env) \<and>
    FilterAlgorithm \<notin> set (trace env) \<and> plot_calls env = [] \<and> output_files env = []"
proof -
  from assms have s: "script env =
      ((if dir_exists env then [] else [MakeDirs, Print CreatedOutputDir]) @
       [ReadCsv, Print LoadedOk, Print UniqueAlgorithmsHeader, Print AlgorithmColumnMissing],
       Inl Exited)"
    by (simp add: script_table clean_missing_algorithm)
  then show ?thesis
    by (simp add: run_def trace_def plot_calls_def output_files_def)
qed

theorem missing_algorithm_stops_early_witness:
  "read_csv (example_env (Table no_algorithm)) = Table no_algorithm \<and>
   ''Algorithm'' \<notin> set (map strip (columns no_algorithm)) \<and>
   run (example_env (Table no_algorithm)) =
     ([MakeDirs, Print CreatedOutputDir, ReadCsv, Print LoadedOk, Print UniqueAlgorithmsHeader,
       Print AlgorithmColumnMissing], Exited) \<and>
   plot_calls (example_env (Table no_algorithm)) = [] \<and>
   output_files (example_env (Table no_algorithm)) = []"
proof -
  have r: "read_csv (example_env (Table no_algorithm)) = Table no_algorithm"
    by (simp add: example_env_def)
  have a: "''Algorithm'' \<notin> set (map strip (columns no_algorithm))"
    by (simp add: no_algorithm_def table_of_def strip_def isspace_def)
  from missing_algorithm_stops_early [OF r a] r a show ?thesis
    by (simp add: example_env_def)
qed

subsection \<open>The output directory\<close>



subsection \<open>The exit status\<close>

text \<open>
  C7, as amended. The run ends through \<^verbatim>\<open>exit()\<close> in exactly three cases: the file is
  not found, reading it fails otherwise, or the trimmed header has no \<^verbatim>\<open>Algorithm\<close>.
  The exit status is 0 when the run completes and also in these three cases, since
  \<^verbatim>\<open>exit()\<close> is called without a status; it is not 0 exactly when an exception is not
  caught.
\<close>

theorem exit_status:
  "(snd (run env) = Exited \<longleftrightarrow>
      read_csv env = FileNotFoundError \<or> (\<exists>e. read_csv env = OtherError e) \<or>
      (\<exists>df0. read_csv env = Table df0 \<and> ''Algorithm'' \<notin> set (map strip (columns df0)))) \<and>
   (status env = 0 \<longleftrightarrow> snd (run env) = Completed \<or> snd (run env) = Exited) \<and>
   (status env \<noteq> 0 \<longleftrightarrow> (\<exists>e. snd (run env) = Uncaught e))"
proof -
  have "snd (run env) = Exited \<longleftrightarrow> snd (script env) = Inl Exited"
    by (simp add: run_snd split: sum.splits)
  then have "snd (run env) = Exited \<longleftrightarrow>
      read_csv env = FileNotFoundError \<or> (\<exists>e. read_csv env = OtherError e) \<or>
      (\<exists>df0. read_csv env = Table df0 \<and> ''Algorithm'' \<notin> set (map strip (columns df0)))"
    by (simp only: script_Exited_iff)
  moreover have "status env = 0 \<longleftrightarrow> snd (run env) = Completed \<or> snd (run env) = Exited"
    by (simp add: status_def exit_code_def split: outcome.splits)
  moreover have "status env \<noteq> 0 \<longleftrightarrow> (\<exists>e. snd (run env) = Uncaught e)"
    by (simp add: status_def exit_code_def split: outcome.splits)
  ultimately show ?thesis by blast
qed

theorem exit_status_witness:
  "snd (run (example_env (OtherError ''no columns to parse''))) = Exited \<and>
   status (example_env (OtherError ''no columns to parse'')) = 0 \<and>
   snd (run (example_env (Table no_algorithm))) = Exited \<and>
   status (example_env (Table no_algorithm)) = 0"
proof -
  have "read_csv (example_env (OtherError ''no columns to parse'')) =
      OtherError ''no columns to parse''"
    by (simp add: example_env_def)
  moreover have "read_csv (example_env (Table no_algorithm)) = Table no_algorithm \<and>
      ''Algorithm'' \<notin> set (map strip (columns no_algorithm))"
    by (simp add: example_env_def no_algorithm_def table_of_def strip_def isspace_def)
  ultimately show ?thesis
    using exit_status [of "example_env (OtherError ''no columns to parse'')"]
      exit_status [of "example_env (Table no_algorithm)"]
    by simp
qed

lemma check_algorithm_ok:
  "''Algorithm'' \<in> set (columns df) \<Longrightarrow> \<not> duplicated df ''Algorithm'' \<Longrightarrow>
     check_algorithm df =
       ([Print UniqueAlgorithmsHeader, Print (Values (unique (column df ''Algorithm'')))], Inr ())"
  by (simp add: check_algorithm_def series_unique_Inr)

lemma check_algorithm_duplicated:
  "''Algorithm'' \<in> set (columns df) \<Longrightarrow> duplicated df ''Algorithm'' \<Longrightarrow>
     check_algorithm df = ([Print UniqueAlgorithmsHeader], Inl (Uncaught AttributeError))"
  by (simp add: check_algorithm_def series_unique_def)

lemma dropna_missing:
  "c \<in> set labels \<Longrightarrow> c \<notin> set (columns df) \<Longrightarrow> dropna labels df = Inl KeyError"
  by (auto simp: dropna_def)

lemma clean_missing_required:
  assumes alg: "''Algorithm'' \<in> set (map strip (columns df0))"
    and c: "c \<in> set dropna_subset" "c \<notin> set (map strip (columns df0))"
  shows "\<exists>e. snd (clean env df0) = Inl (Uncaught e)"
proof (cases "duplicated (strip_columns df0) ''Algorithm''")
  case True
  with alg show ?thesis
    by (simp add: clean_def Let_def check_algorithm_duplicated)
next
  case False
  let ?df = "strip_columns df0"
  obtain done' res where co: "coerce_columns (parse_number env) numeric_cols ?df = (done', res)"
    by (cases "coerce_columns (parse_number env) numeric_cols ?df")
  show ?thesis
  proof (cases res)
    case (Inl e)
    with alg False co show ?thesis
      by (simp add: clean_def Let_def check_algorithm_ok convert_columns_def)
  next
    case (Inr df1)
    with co have "columns df1 = columns ?df" by (simp add: coerce_columns_Inr)
    with c have "dropna dropna_subset df1 = Inl KeyError"
      by (simp add: dropna_missing)
    with alg False co Inr show ?thesis
      by (simp add: clean_def Let_def check_algorithm_ok convert_columns_def raising_def)
  qed
qed

lemma clean_missing_required_distinct:
  assumes alg: "''Algorithm'' \<in> set (map strip (columns df0))"
    and c: "c \<in> set dropna_subset" "c \<notin> set (map strip (columns df0))"
    and dup: "\<forall>c \<in> set (''Algorithm'' # numeric_cols). \<not> duplicated (strip_columns df0) c"
  shows "\<exists>done' df1.
    coerce_columns (parse_number env) numeric_cols (strip_columns df0) = (done', Inr df1) \<and>
    dropna dropna_subset df1 = Inl KeyError \<and>
    clean env df0 =
      ([Print UniqueAlgorithmsHeader,
        Print (Values (unique (column (strip_columns df0) ''Algorithm'')))] @
       map ToNumeric done', Inl (Uncaught KeyError))"
proof -
  let ?df = "strip_columns df0"
  from dup have "\<forall>c \<in> set numeric_cols. \<not> duplicated ?df c" by simp
  then obtain done' df1 where
    co: "coerce_columns (parse_number env) numeric_cols ?df = (done', Inr df1)"
    using coerce_columns_ok by blast
  then have "columns df1 = columns ?df" by (simp add: coerce_columns_Inr)
  with c have dr: "dropna dropna_subset df1 = Inl KeyError"
    by (simp add: dropna_missing)
  from dup have "\<not> duplicated ?df ''Algorithm''" by simp
  with alg co dr have "clean env df0 =
      ([Print UniqueAlgorithmsHeader, Print (Values (unique (column ?df ''Algorithm'')))] @
       map ToNumeric done', Inl (Uncaught KeyError))"
    by (simp add: clean_def Let_def check_algorithm_ok convert_columns_def raising_def)
  with co dr show ?thesis by blast
qed

subsection \<open>A missing required column\<close>

text \<open>
  C10, as amended. When the trimmed header has \<^verbatim>\<open>Algorithm\<close> but lacks one of NumVMs, NumHosts,
  Landscape and StdDev_Host_CPU_Util(%), the run ends with an exception that nothing
  catches, status 1, and not through the diagnostic and \<^verbatim>\<open>exit()\<close> of the missing
  Algorithm column. When no label that the script reads is carried by two columns, the
  columns present are converted and the exception is the \<^verbatim>\<open>KeyError\<close> of \<^verbatim>\<open>dropna\<close>.
\<close>

theorem missing_required_column_raises:
  assumes "read_csv env = Table df0"
    and "''Algorithm'' \<in> set (map strip (columns df0))"
    and "c \<in> {''NumVMs'', ''NumHosts'', ''Landscape'', ''StdDev_Host_CPU_Util(%)''}"
    and "c \<notin> set (map strip (columns df0))"
  shows "(\<exists>e. snd (run env) = Uncaught e) \<and> snd (run env) \<noteq> Exited \<and> status env = 1 \<and>
    ((\<forall>c \<in> set (''Algorithm'' # numeric_cols). \<not> duplicated (strip_columns df0) c) \<longrightarrow>
       (\<exists>done' df1.
          coerce_columns (parse_number env) numeric_cols (strip_columns df0) = (done', Inr df1) \<and>
          dropna dropna_subset df1 = Inl KeyError \<and>
          run env =
            ((if dir_exists env then [] else [MakeDirs, Print CreatedOutputDir]) @
             [ReadCsv, Print LoadedOk, Print UniqueAlgorithmsHeader,
              Print (Values (unique (column (strip_columns df0) ''Algorithm'')))] @
             map ToNumeric done', Uncaught KeyError)))"
proof -
  from assms(3) have c: "c \<in> set dropna_subset" by (auto simp: dropna_subset_def)
  from clean_missing_required [OF assms(2) c assms(4)] obtain e where
    e: "snd (clean env df0) = Inl (Uncaught e)"
    by blast
  with assms(1) have "snd (script env) = Inl (Uncaught e)"
    by (simp add: script_table and_then_snd_Inl)
  then have out: "snd (run env) = Uncaught e" by (simp add: run_snd)
  then have "(\<exists>e. snd (run env) = Uncaught e) \<and> snd (run env) \<noteq> Exited \<and> status env = 1"
    by (simp add: status_def exit_code_def)
  moreover have "\<exists>done' df1.
          coerce_columns (parse_number env) numeric_cols (strip_columns df0) = (done', Inr df1) \<and>
          dropna dropna_subset df1 = Inl KeyError \<and>
          run env =
            ((if dir_exists env then [] else [MakeDirs, Print CreatedOutputDir]) @
             [ReadCsv, Print LoadedOk, Print UniqueAlgorithmsHeader,
              Print (Values (unique (column (strip_columns df0) ''Algorithm'')))] @
             map ToNumeric done', Uncaught KeyError)"
    if dup: "\<forall>c \<in> set (''Algorithm'' # numeric_cols). \<not> duplicated (strip_columns df0) c"
  proof -
    from clean_missing_required_distinct [OF assms(2) c assms(4) dup, of env]
    obtain done' df1 where
      co: "coerce_columns (parse_number env) numeric_cols (strip_columns df0) = (done', Inr df1)"
      and dr: "dropna dropna_subset df1 = Inl KeyError"
      and cl: "clean env df0 =
        ([Print UniqueAlgorithmsHeader,
          Print (Values (unique (column (strip_columns df0) ''Algorithm'')))] @
         map ToNumeric done', Inl (Uncaught KeyError))"
      by blast
    from assms(1) cl have "run env =
            ((if dir_exists env then [] else [MakeDirs, Print CreatedOutputDir]) @
             [ReadCsv, Print LoadedOk, Print UniqueAlgorithmsHeader,
              Print (Values (unique (column (strip_columns df0) ''Algorithm'')))] @
             map ToNumeric done', Uncaught KeyError)"
      by (simp add: run_def script_table)
    with co dr show ?thesis by blast
  qed
  ultimately show ?thesis by blast
qed

lemma no_numvms_facts:
  "''Algorithm'' \<in> set (map strip (columns no_numvms))"
  "''NumVMs'' \<notin> set (map strip (columns no_numvms))"
  "\<forall>c \<in> set (''Algorithm'' # numeric_cols). \<not> duplicated (strip_columns no_numvms) c"
  by (simp_all add: no_numvms_def table_of_def strip_def isspace_def duplicated_def
        numeric_cols_def)

theorem missing_required_column_raises_witness:
  "read_csv (example_env (Table no_numvms)) = Table no_numvms \<and>
   ''Algorithm'' \<in> set (map strip (columns no_numvms)) \<and>
   ''NumVMs'' \<notin> set (map strip (columns no_numvms)) \<and>
   snd (run (example_env (Table no_numvms))) = Uncaught KeyError \<and>
   status (example_env (Table no_numvms)) = 1"
proof -
  have r: "read_csv (example_env (Table no_numvms)) = Table no_numvms"
    by (simp add: example_env_def)
  have "''NumVMs'' \<in> {''NumVMs'', ''NumHosts'', ''Landscape'', ''StdDev_Host_CPU_Util(%)''}"
    by simp
  from missing_required_column_raises [OF r no_numvms_facts(1) this no_numvms_facts(2)]
    no_numvms_facts(3)
  have "snd (run (example_env (Table no_numvms))) = Uncaught KeyError \<and>
      status (example_env (Table no_numvms)) = 1"
    by auto
  with r no_numvms_facts(1,2) show ?thesis by blast
qed

theorem missing_required_column_raises_counterexample:
  "''Algorithm'' \<in> set (map strip (columns two_algorithm_labels)) \<and>
   ''NumVMs'' \<notin> set (map strip (columns two_algorithm_labels)) \<and>
   run (example_env (Table two_algorithm_labels)) =
     ([MakeDirs, Print CreatedOutputDir, ReadCsv, Print LoadedOk, Print UniqueAlgorithmsHeader],
      Uncaught AttributeError) \<and>
   ''Algorithm'' \<in> set (map strip (columns two_numhosts_labels)) \<and>
   ''NumVMs'' \<notin> set (map strip (columns two_numhosts_labels)) \<and>
   run (example_env (Table two_numhosts_labels)) =
     ([MakeDirs, Print CreatedOutputDir, ReadCsv, Print LoadedOk, Print UniqueAlgorithmsHeader,
       Print (Values [Str ''SLA-PSO''])],
      Uncaught TypeError)"
proof -
  have a: "''Algorithm'' \<in> set (map strip (columns two_algorithm_labels))"
    "''NumVMs'' \<notin> set (map strip (columns two_algorithm_labels))"
    "duplicated (strip_columns two_algorithm_labels) ''Algorithm''"
    by (simp_all add: two_algorithm_labels_def table_of_def strip_def isspace_def duplicated_def)
  from a(1,3) have "clean (example_env (Table two_algorithm_labels)) two_algorithm_labels =
      ([Print UniqueAlgorithmsHeader], Inl (Uncaught AttributeError))"
    by (simp add: clean_def Let_def check_algorithm_duplicated)
  then have ra: "run (example_env (Table two_algorithm_labels)) =
     ([MakeDirs, Print CreatedOutputDir, ReadCsv, Print LoadedOk, Print UniqueAlgorithmsHeader],
      Uncaught AttributeError)"
    by (simp add: run_def script_table example_env_def)
  have b: "''Algorithm'' \<in> set (map strip (columns two_numhosts_labels))"
    "''NumVMs'' \<notin> set (map strip (columns two_numhosts_labels))"
    "\<not> duplicated (strip_columns two_numhosts_labels) ''Algorithm''"
    by (simp_all add: two_numhosts_labels_def table_of_def strip_def isspace_def duplicated_def)
  have co: "coerce_columns (\<lambda>s. None) numeric_cols (strip_columns two_numhosts_labels) =
      ([], Inl TypeError)"
    by (simp add: numeric_cols_def two_numhosts_labels_def table_of_def strip_def isspace_def
          duplicated_def)
  have u: "unique (column (strip_columns two_numhosts_labels) ''Algorithm'') = [Str ''SLA-PSO'']"
    by (simp add: unique_def column_def two_numhosts_labels_def table_of_def strip_columns_def
          strip_def isspace_def)
  from b(1,3) co u
  have "clean (example_env (Table two_numhosts_labels)) two_numhosts_labels =
      ([Print UniqueAlgorithmsHeader, Print (Values [Str ''SLA-PSO''])],
       Inl (Uncaught TypeError))"
    by (simp add: clean_def Let_def check_algorithm_ok convert_columns_def example_env_def)
  then have rb: "run (example_env (Table two_numhosts_labels)) =
     ([MakeDirs, Print CreatedOutputDir, ReadCsv, Print LoadedOk, Print UniqueAlgorithmsHeader,
       Print (Values [Str ''SLA-PSO''])],
      Uncaught TypeError)"
    by (simp add: run_def script_table example_env_def)
  from a(1,2) b(1,2) ra rb show ?thesis by blast
qed

lemma no_numvms_status: "status (example_env (Table no_numvms)) = 1"
proof -
  have c: "''NumVMs'' \<in> set dropna_subset" by (simp add: dropna_subset_def)
  from clean_missing_required [OF no_numvms_facts(1) c no_numvms_facts(2)]
  obtain e where "snd (clean (example_env (Table no_numvms)) no_numvms) = Inl (Uncaught e)"
    by blast
  then have "snd (script (example_env (Table no_numvms))) = Inl (Uncaught e)"
    by (simp add: script_table and_then_snd_Inl example_env_def)
  then show ?thesis by (simp add: status_def run_snd exit_code_def)
qed

theorem exit_status_counterexample:
  "read_csv (example_env FileNotFoundError) = FileNotFoundError \<and>
   snd (run (example_env FileNotFoundError)) = Exited \<and>
   status (example_env FileNotFoundError) = 0 \<and>
   read_csv (example_env (Table no_numvms)) = Table no_numvms \<and>
   ''Algorithm'' \<in> set (map strip (columns no_numvms)) \<and>
   status (example_env (Table no_numvms)) = 1"
proof -
  have "script (example_env FileNotFoundError) =
      ([MakeDirs, Print CreatedOutputDir, ReadCsv, Print FileNotFoundMsg], Inl Exited)"
    by (simp add: script_not_found example_env_def)
  then have "snd (run (example_env FileNotFoundError)) = Exited \<and>
      status (example_env FileNotFoundError) = 0"
    by (simp add: status_def run_snd exit_code_def)
  with no_numvms_status no_numvms_facts(1) show ?thesis
    by (simp add: example_env_def)
qed

lemma plot_single_calls [simp]:
  "calls_of (fst (plot_single env ch d y pre)) = [plot_path pre y (chart_kind ch)]"
  by (simp add: plot_single_def Let_def)

lemma plot_single_files [simp]:
  "files_of (fst (plot_single env ch d y pre)) =
     (if plot_raises env (plot_path pre y (chart_kind ch)) then []
      else [plot_path pre y (chart_kind ch)])"
  by (simp add: plot_single_def Let_def)

lemma plot_single_snd [simp]:
  "snd (plot_single env ch d y pre) =
     (if plot_raises env (plot_path pre y (chart_kind ch)) then Inl (Uncaught PlotError)
      else Inr ())"
  by (simp add: plot_single_def Let_def)

lemma vm_scaling_facts:
  "calls_of (fst (vm_scaling env sla)) =
     (if rows (vm_scaling_data sla) \<noteq> [] then [vm_plot_path] else [])"
  "files_of (fst (vm_scaling env sla)) =
     (if rows (vm_scaling_data sla) \<noteq> [] \<and> \<not> plot_raises env vm_plot_path
      then [vm_plot_path] else [])"
  "snd (vm_scaling env sla) =
     (if rows (vm_scaling_data sla) \<noteq> [] \<and> plot_raises env vm_plot_path
      then Inl (Uncaught PlotError) else Inr ())"
  by (simp_all add: vm_scaling_def vm_plot_path_def chart_kind_def)

lemma host_scaling_facts:
  "calls_of (fst (host_scaling env sla)) =
     (if rows (host_scaling_data sla) \<noteq> [] then [host_plot_path] else [])"
  "files_of (fst (host_scaling env sla)) =
     (if rows (host_scaling_data sla) \<noteq> [] \<and> \<not> plot_raises env host_plot_path
      then [host_plot_path] else [])"
  "snd (host_scaling env sla) =
     (if rows (host_scaling_data sla) \<noteq> [] \<and> plot_raises env host_plot_path
      then Inl (Uncaught PlotError) else Inr ())"
  by (simp_all add: host_scaling_def host_plot_path_def chart_kind_def)

lemma and_then_fst:
  "fst (and_then m f) = fst m @ (case snd m of Inl out \<Rightarrow> [] | Inr a \<Rightarrow> fst (f a))"
  by (cases m; cases "snd m") (auto simp: and_then_def split: prod.splits)

lemma and_then_snd:
  "snd (and_then m f) = (case snd m of Inl out \<Rightarrow> Inl out | Inr a \<Rightarrow> snd (f a))"
  by (cases m; cases "snd m") (auto simp: and_then_def split: prod.splits)

lemma landscape_variation_facts:
  "calls_of (fst (landscape_variation env sla)) =
     (if rows (landscape_variation_data sla) = [] then []
      else if plot_raises env bar_plot_path then [bar_plot_path]
      else if plot_raises env curve_plot_path then [bar_plot_path, curve_plot_path]
      else [bar_plot_path, curve_plot_path, box_plot_path])"
  "set (files_of (fst (landscape_variation env sla))) \<subseteq>
     {bar_plot_path, curve_plot_path, box_plot_path}"
  "snd (landscape_variation env sla) =
     (if rows (landscape_variation_data sla) \<noteq> [] \<and>
         (plot_raises env bar_plot_path \<or> plot_raises env curve_plot_path \<or>
          plot_raises env box_plot_path)
      then Inl (Uncaught PlotError) else Inr ())"
  by (simp_all add: landscape_variation_def Let_def and_then_fst and_then_snd
        bar_plot_path_def curve_plot_path_def box_plot_path_def chart_kind_def)

lemma analyse_calls:
  "calls_of (fst (analyse env sla)) =
     calls_of (fst (vm_scaling env sla)) @
     (case snd (vm_scaling env sla) of Inl out \<Rightarrow> []
      | Inr u \<Rightarrow> calls_of (fst (host_scaling env sla)) @
          (case snd (host_scaling env sla) of Inl out \<Rightarrow> []
           | Inr u \<Rightarrow> calls_of (fst (landscape_variation env sla))))"
  by (simp add: analyse_def and_then_fst and_then_snd split: sum.splits)

lemma script_calls:
  assumes "read_csv env = Table df0" and "sla_pso_df env df0 = Some sla"
  shows "plot_calls env = calls_of (fst (analyse env sla))"
proof -
  from assms(2) obtain t where c: "clean env df0 = (t, Inr sla)"
    by (auto simp: sla_pso_df_Some)
  from plot_free_clean [of env df0] c have "calls_of t = []"
    by (simp add: plot_free_def)
  with assms(1) c show ?thesis
    by (simp add: plot_calls_def trace_eq script_table)
qed


subsection \<open>A plot call that raises\<close>





lemma script_files:
  assumes "read_csv env = Table df0" and "sla_pso_df env df0 = Some sla"
  shows "output_files env = files_of (fst (analyse env sla))"
proof -
  from assms(2) obtain t where c: "clean env df0 = (t, Inr sla)"
    by (auto simp: sla_pso_df_Some)
  from plot_free_clean [of env df0] c have "files_of t = []"
    by (simp add: plot_free_def)
  with assms(1) c show ?thesis
    by (simp add: output_files_def trace_eq script_table)
qed

lemma no_host_slice_ok: "\<exists>sla. sla_pso_df env no_host_slice = Some sla"
proof -
  have "\<exists>t sla. clean env no_host_slice = (t, Inr sla)"
    by (rule clean_succeeds) (simp_all add: no_host_slice_def header5_def row_defs)
  then show ?thesis by (auto simp: sla_pso_df_Some)
qed

lemma no_host_slice_rows:
  assumes "sla_pso_df env no_host_slice = Some sla"
  shows "map (\<lambda>r. (r ''NumVMs'', r ''NumHosts'', r ''Landscape'')) (rows sla) =
     [(Num 10, Num 5, Num 4), (Num 30, Num 5, Num 1)]"
proof -
  from assms obtain t where c: "clean env no_host_slice = (t, Inr sla)"
    by (auto simp: sla_pso_df_Some)
  show ?thesis
    unfolding clean_rows_eq [OF c]
    by (simp add: no_host_slice_def header5_def row_defs)
qed

lemma no_host_slice_slices:
  assumes "sla_pso_df env no_host_slice = Some sla"
  shows "rows (vm_scaling_data sla) \<noteq> []" "rows (host_scaling_data sla) = []"
    "rows (landscape_variation_data sla) \<noteq> []"
proof -
  from no_host_slice_rows [OF assms] obtain r1 r2 where
    rows: "rows sla = [r1, r2]" and
    vals: "r1 ''NumVMs'' = Num 10" "r1 ''NumHosts'' = Num 5" "r1 ''Landscape'' = Num 4"
          "r2 ''NumVMs'' = Num 30" "r2 ''NumHosts'' = Num 5" "r2 ''Landscape'' = Num 1"
    by (auto simp: map_eq_Cons_conv)
  show "rows (vm_scaling_data sla) \<noteq> []" "rows (host_scaling_data sla) = []"
    "rows (landscape_variation_data sla) \<noteq> []"
    by (simp_all add: vm_scaling_data_def host_scaling_data_def landscape_variation_data_def
          select_rows_def rows vals)
qed

lemma and_then_events:
  "e \<in> set (fst (and_then m f)) \<Longrightarrow> e \<in> set (fst m) \<or> (\<exists>a. e \<in> set (fst (f a)))"
  by (auto simp: and_then_fst split: sum.splits)

lemma clean_not_complete: "Print AnalysisComplete \<notin> set (fst (clean env df0))"
proof
  assume "Print AnalysisComplete \<in> set (fst (clean env df0))"
  then show False
    unfolding clean_def Let_def
    by (auto dest!: and_then_events
          simp: check_algorithm_def convert_columns_def raising_def print_unique_def
          split: if_splits sum.splits prod.splits)
qed

lemma vm_scaling_not_complete: "Print AnalysisComplete \<notin> set (fst (vm_scaling env sla))"
  by (simp add: vm_scaling_def plot_single_def Let_def)

lemma landscape_variation_not_complete:
  "Print AnalysisComplete \<notin> set (fst (landscape_variation env sla))"
  by (auto simp: landscape_variation_def Let_def plot_single_def dest!: and_then_events
        split: if_splits)

lemma host_scaling_empty:
  "rows (host_scaling_data sla) = [] \<Longrightarrow>
     host_scaling env sla = ([Print NoDataHostScaling], Inr ())"
  by (simp add: host_scaling_def)

lemma empty_host_slice_trace:
  assumes "read_csv env = Table df0" and "clean env df0 = (t, Inr sla)"
    and "rows (host_scaling_data sla) = []"
    and "snd (vm_scaling env sla) = Inr ()"
  shows "trace env =
      ((if dir_exists env then [] else [MakeDirs, Print CreatedOutputDir]) @
       [ReadCsv, Print LoadedOk] @ t @ fst (vm_scaling env sla)) @
      [Print NoDataHostScaling] @ fst (landscape_variation env sla) @
      (if snd (landscape_variation env sla) = Inr () then [Print AnalysisComplete] else [])"
    and "snd (script env) =
      (case snd (landscape_variation env sla) of Inl out \<Rightarrow> Inl out | Inr u \<Rightarrow> Inr ())"
proof -
  note host = host_scaling_empty [OF assms(3), of env]
  have an_fst: "fst (analyse env sla) =
      fst (vm_scaling env sla) @ [Print NoDataHostScaling] @
      fst (landscape_variation env sla) @
      (if snd (landscape_variation env sla) = Inr () then [Print AnalysisComplete] else [])"
    by (simp add: analyse_def and_then_fst and_then_snd assms(4) host split: sum.splits)
  have an_snd: "snd (analyse env sla) =
      (case snd (landscape_variation env sla) of Inl out \<Rightarrow> Inl out | Inr u \<Rightarrow> Inr ())"
    by (simp add: analyse_def and_then_snd assms(4) host split: sum.splits)
  from assms(1,2) an_fst show "trace env =
      ((if dir_exists env then [] else [MakeDirs, Print CreatedOutputDir]) @
       [ReadCsv, Print LoadedOk] @ t @ fst (vm_scaling env sla)) @
      [Print NoDataHostScaling] @ fst (landscape_variation env sla) @
      (if snd (landscape_variation env sla) = Inr () then [Print AnalysisComplete] else [])"
    by (simp add: trace_eq script_table)
  from assms(1,2) an_snd show "snd (script env) =
      (case snd (landscape_variation env sla) of Inl out \<Rightarrow> Inl out | Inr u \<Rightarrow> Inr ())"
    by (simp add: script_table)
qed

lemma empty_host_slice_failure:
  assumes "read_csv env = Table df0" and "clean env df0 = (t, Inr sla)"
    and "rows (host_scaling_data sla) = []"
    and "snd (vm_scaling env sla) = Inr ()"
    and "snd (landscape_variation env sla) \<noteq> Inr ()"
  shows "Print AnalysisComplete \<notin> set (trace env) \<and> snd (run env) = Uncaught PlotError \<and>
         status env = 1"
proof -
  from assms(5) have l: "snd (landscape_variation env sla) = Inl (Uncaught PlotError)"
    by (simp add: landscape_variation_facts(3) split: if_splits)
  from assms(2) clean_not_complete [of env df0] have "Print AnalysisComplete \<notin> set t" by simp
  with assms(5) empty_host_slice_trace(1) [OF assms(1-4)] vm_scaling_not_complete [of env sla]
    landscape_variation_not_complete [of env sla]
  have "Print AnalysisComplete \<notin> set (trace env)" by simp
  with l empty_host_slice_trace(2) [OF assms(1-4)] show ?thesis
    by (simp add: run_snd status_def exit_code_def)
qed

subsection \<open>An empty host-scaling slice\<close>

text \<open>
  C6, as amended. In a run that reaches the host-scaling analysis (the cleaning and the
  VM-scaling analysis end with no exception) with an empty host-scaling slice, that
  analysis prints its diagnostic and nothing else: its plot function is not entered and
  its file is not written. The landscape analysis comes next. When no plot call of the
  landscape analysis raises, the run prints the completion message last and completes
  with status 0; when one raises, the run ends there with that exception, status 1, and
  the completion message is not printed.
\<close>

theorem empty_host_slice_is_skipped:
  assumes "read_csv env = Table df0" and "sla_pso_df env df0 = Some sla"
    and "rows (host_scaling_data sla) = []"
    and "snd (vm_scaling env sla) = Inr ()"
  shows "host_scaling env sla = ([Print NoDataHostScaling], Inr ()) \<and>
    host_plot_path \<notin> set (plot_calls env) \<and>
    host_plot_path \<notin> set (output_files env) \<and>
    (\<exists>pre post. trace env =
       pre @ [Print NoDataHostScaling] @ fst (landscape_variation env sla) @ post \<and>
       post = (if snd (landscape_variation env sla) = Inr () then [Print AnalysisComplete]
               else [])) \<and>
    (snd (landscape_variation env sla) = Inr () \<longrightarrow>
       last (trace env) = Print AnalysisComplete \<and> snd (run env) = Completed \<and>
       status env = 0) \<and>
    (snd (landscape_variation env sla) \<noteq> Inr () \<longrightarrow>
       Print AnalysisComplete \<notin> set (trace env) \<and> snd (run env) = Uncaught PlotError \<and>
       status env = 1)"
proof -
  from assms(2) obtain t where c: "clean env df0 = (t, Inr sla)"
    by (auto simp: sla_pso_df_Some)
  note host = host_scaling_empty [OF assms(3), of env]
  note tr = empty_host_slice_trace(1) [OF assms(1) c assms(3,4)]
  note out = empty_host_slice_trace(2) [OF assms(1) c assms(3,4)]
  have d: "host_plot_path \<noteq> vm_plot_path" "host_plot_path \<noteq> bar_plot_path"
    "host_plot_path \<noteq> curve_plot_path" "host_plot_path \<noteq> box_plot_path"
    using paths_distinct by auto
  have an: "calls_of (fst (analyse env sla)) =
      calls_of (fst (vm_scaling env sla)) @ calls_of (fst (landscape_variation env sla))"
    "files_of (fst (analyse env sla)) =
      files_of (fst (vm_scaling env sla)) @ files_of (fst (landscape_variation env sla))"
    by (simp_all add: analyse_def and_then_fst and_then_snd assms(4) host split: sum.splits)
  have "set (calls_of (fst (analyse env sla))) \<subseteq>
      {vm_plot_path, bar_plot_path, curve_plot_path, box_plot_path}"
    by (auto simp: an vm_scaling_facts landscape_variation_facts(1) split: if_splits)
  with d have calls: "host_plot_path \<notin> set (plot_calls env)"
    unfolding script_calls [OF assms(1,2)] by blast
  have "set (files_of (fst (analyse env sla))) \<subseteq>
      {vm_plot_path, bar_plot_path, curve_plot_path, box_plot_path}"
    using landscape_variation_facts(2) [of env sla]
    by (auto simp: an vm_scaling_facts split: if_splits)
  with d have files: "host_plot_path \<notin> set (output_files env)"
    unfolding script_files [OF assms(1,2)] by blast
  have ok: "last (trace env) = Print AnalysisComplete \<and> snd (run env) = Completed \<and>
       status env = 0" if "snd (landscape_variation env sla) = Inr ()"
    using that tr out by (simp add: run_snd status_def exit_code_def)
  note bad = empty_host_slice_failure [OF assms(1) c assms(3,4)]
  from tr have "\<exists>pre post. trace env =
       pre @ [Print NoDataHostScaling] @ fst (landscape_variation env sla) @ post \<and>
       post = (if snd (landscape_variation env sla) = Inr () then [Print AnalysisComplete]
               else [])"
    by blast
  with host calls files ok bad show ?thesis by blast
qed

theorem empty_host_slice_is_skipped_witness:
  "read_csv (example_env (Table no_host_slice)) = Table no_host_slice \<and>
   map_option (\<lambda>sla. rows (host_scaling_data sla))
     (sla_pso_df (example_env (Table no_host_slice)) no_host_slice) = Some [] \<and>
   host_plot_path \<notin> set (plot_calls (example_env (Table no_host_slice))) \<and>
   host_plot_path \<notin> set (output_files (example_env (Table no_host_slice))) \<and>
   plot_calls (example_env (Table no_host_slice)) =
     [vm_plot_path, bar_plot_path, curve_plot_path, box_plot_path] \<and>
   last (trace (example_env (Table no_host_slice))) = Print AnalysisComplete \<and>
   snd (run (example_env (Table no_host_slice))) = Completed \<and>
   status (example_env (Table no_host_slice)) = 0"
proof -
  let ?e = "example_env (Table no_host_slice)"
  have r: "read_csv ?e = Table no_host_slice" by (simp add: example_env_def)
  have np: "\<not> plot_raises ?e p" for p by (simp add: example_env_def)
  obtain sla where s: "sla_pso_df ?e no_host_slice = Some sla"
    using no_host_slice_ok by blast
  note sl = no_host_slice_slices [OF s]
  have vm: "snd (vm_scaling ?e sla) = Inr ()" by (simp add: vm_scaling_facts np)
  have la: "snd (landscape_variation ?e sla) = Inr ()"
    by (simp add: landscape_variation_facts np)
  note skipped = empty_host_slice_is_skipped [OF r s sl(2) vm]
  have calls: "plot_calls ?e = [vm_plot_path, bar_plot_path, curve_plot_path, box_plot_path]"
    unfolding script_calls [OF r s]
    by (simp add: analyse_calls vm_scaling_facts host_scaling_facts landscape_variation_facts
          sl np)
  from skipped la calls r sl(2) show ?thesis
    by (simp add: s)
qed

theorem empty_host_slice_is_skipped_counterexample:
  "read_csv bar_failing_env = Table no_host_slice \<and>
   map_option (\<lambda>sla. rows (host_scaling_data sla))
     (sla_pso_df bar_failing_env no_host_slice) = Some [] \<and>
   plot_calls bar_failing_env = [vm_plot_path, bar_plot_path] \<and>
   Print AnalysisComplete \<notin> set (trace bar_failing_env) \<and>
   snd (run bar_failing_env) = Uncaught PlotError \<and> status bar_failing_env = 1"
proof -
  have r: "read_csv bar_failing_env = Table no_host_slice" by (simp add: bar_failing_env_def)
  have p: "plot_raises bar_failing_env bar_plot_path"
    "\<not> plot_raises bar_failing_env vm_plot_path"
    using paths_distinct by (auto simp: bar_failing_env_def)
  obtain sla where s: "sla_pso_df bar_failing_env no_host_slice = Some sla"
    using no_host_slice_ok by blast
  then obtain t where c: "clean bar_failing_env no_host_slice = (t, Inr sla)"
    by (auto simp: sla_pso_df_Some)
  note sl = no_host_slice_slices [OF s]
  have vm: "snd (vm_scaling bar_failing_env sla) = Inr ()" by (simp add: vm_scaling_facts p)
  have la: "snd (landscape_variation bar_failing_env sla) \<noteq> Inr ()"
    by (simp add: landscape_variation_facts sl p)
  have calls: "plot_calls bar_failing_env = [vm_plot_path, bar_plot_path]"
    unfolding script_calls [OF r s]
    by (simp add: analyse_calls vm_scaling_facts host_scaling_facts landscape_variation_facts
          sl p)
  from empty_host_slice_failure [OF r c sl(2) vm la] calls r sl(2) show ?thesis
    by (simp add: s)
qed

end
